theory Spec2Isabelle
  imports Main
begin

section \<open>Errors raised by the script\<close>

text \<open>
  The script is Python 2.7. Two of its statements can raise: reading a local name that
  no branch has bound (\<open>points_id\<close> in \<open>check_object_id\<close>, \<open>line\<close> in
  \<open>create_line\<close>) and indexing \<open>dict_out\<close> at a key that was never stored.
\<close>

datatype error = UnboundLocalError | KeyError

section \<open>Feature classes, fields and layers\<close>

text \<open>
  A field object carries the two attributes the script reads, \<open>name\<close> and \<open>type\<close>.
  A row holds its attribute values by field name, the object id among them under the name
  of the object-id field, and its shape. A feature class is its list of fields and its
  rows in table order.
\<close>

record arc_field =
  field_name :: string
  field_type :: string

datatype val = IntV int | StrV string | Null

record 'a feature =
  attributes :: "(string \<times> val) list"
  SHAPE :: 'a

record 'a feature_class =
  fc_fields :: "arc_field list"
  fc_rows :: "'a feature list"

text \<open>
  The value a cursor or a where clause reads in a row under a field name; a field the
  row has no value for reads as null.
\<close>

definition field_value :: "string \<Rightarrow> 'a feature \<Rightarrow> val" where
  "field_value name row = (case map_of (attributes row) name of None \<Rightarrow> Null | Some v \<Rightarrow> v)"

text \<open>
  The where clauses the script writes: \<open>building = 'yes'\<close> and
  \<open>{0} = {1} Or {0} = {2}\<close> with a field name and two integers filled in.
\<close>

datatype where_clause = Equals string val | Or where_clause where_clause

fun holds :: "where_clause \<Rightarrow> 'a feature \<Rightarrow> bool" where
  "holds (Equals name v) row \<longleftrightarrow> field_value name row = v"
| "holds (Or c d) row \<longleftrightarrow> holds c row \<or> holds d row"

text \<open>
  A feature layer is a view of a feature class with an optional current selection.
  Cursors and geoprocessing tools read the selected rows, or every row when the layer
  has no selection.
\<close>

record 'a layer =
  layer_fields :: "arc_field list"
  layer_rows :: "'a feature list"
  layer_selection :: "'a feature list option"

datatype selection_type = NEW_SELECTION | ADD_TO_SELECTION | REMOVE_FROM_SELECTION

definition ListFields :: "'a feature_class \<Rightarrow> arc_field list" where
  "ListFields fc = fc_fields fc"

definition GetCount :: "'a feature_class \<Rightarrow> int" where
  "GetCount fc = int (length (fc_rows fc))"

definition MakeFeatureLayer :: "'a feature_class \<Rightarrow> 'a layer" where
  "MakeFeatureLayer fc =
     \<lparr>layer_fields = fc_fields fc, layer_rows = fc_rows fc, layer_selection = None\<rparr>"

definition SearchCursor :: "'a layer \<Rightarrow> 'a feature list" where
  "SearchCursor l = (case layer_selection l of None \<Rightarrow> layer_rows l | Some rows \<Rightarrow> rows)"

text \<open>
  Both selection tools restrict a layer to the rows that satisfy a condition; the
  selection type says how the result combines with the selection already present.
\<close>

definition select_layer :: "'a layer \<Rightarrow> selection_type \<Rightarrow> ('a feature \<Rightarrow> bool) \<Rightarrow> 'a layer" where
  "select_layer l t P =
     l\<lparr>layer_selection :=
        (case t of
           NEW_SELECTION \<Rightarrow> Some (filter P (layer_rows l))
         | ADD_TO_SELECTION \<Rightarrow>
             (case layer_selection l of
                None \<Rightarrow> Some (filter P (layer_rows l))
              | Some rows \<Rightarrow> Some (filter (\<lambda>r. r \<in> set rows \<or> P r) (layer_rows l)))
         | REMOVE_FROM_SELECTION \<Rightarrow>
             (case layer_selection l of
                None \<Rightarrow> None
              | Some rows \<Rightarrow> Some (filter (\<lambda>r. \<not> P r) rows)))\<rparr>"

definition SelectLayerByAttribute :: "'a layer \<Rightarrow> selection_type \<Rightarrow> where_clause \<Rightarrow> 'a layer" where
  "SelectLayerByAttribute l t clause = select_layer l t (holds clause)"

text \<open>
  \<open>SelectLayerByLocation\<close> with overlap type INTERSECT. The geometric test itself belongs
  to the geoprocessing library; it is the parameter \<open>isect\<close>, which takes the polyline
  (its vertices in order) and a polygon shape.
\<close>

definition SelectLayerByLocation ::
  "(('c \<times> 'c) list \<Rightarrow> 'g \<Rightarrow> bool) \<Rightarrow> 'g layer \<Rightarrow> ('c \<times> 'c) list \<Rightarrow> selection_type \<Rightarrow> 'g layer" where
  "SelectLayerByLocation isect l select_features t =
     select_layer l t (\<lambda>row. isect select_features (SHAPE row))"

text \<open>
  A feature class written by \<open>CopyFeatures\<close> or \<open>FeatureToPoint\<close> is new. Its object-id
  field has the name the output workspace gives it, the parameter \<open>oid_name\<close>
  (\<open>OBJECTID\<close> in a geodatabase), and its rows get the object ids 1, 2, ... in table
  order. The other fields of the source are carried over with their values, except its
  object-id and geometry fields and a field whose name the new object-id field takes.
\<close>

definition kept_fields :: "string \<Rightarrow> arc_field list \<Rightarrow> arc_field list" where
  "kept_fields oid_name source_fields =
     filter (\<lambda>f. field_type f \<noteq> ''OID'' \<and> field_type f \<noteq> ''Geometry'' \<and> field_name f \<noteq> oid_name)
       source_fields"

definition new_row :: "string \<Rightarrow> arc_field list \<Rightarrow> int \<Rightarrow> 'a feature \<Rightarrow> 'a feature" where
  "new_row oid_name source_fields k row =
     row\<lparr>attributes :=
           (oid_name, IntV k) #
           filter (\<lambda>a. fst a \<in> set (map field_name (kept_fields oid_name source_fields)))
             (attributes row)\<rparr>"

definition new_feature_class :: "string \<Rightarrow> arc_field list \<Rightarrow> 'a feature list \<Rightarrow> 'a feature_class" where
  "new_feature_class oid_name source_fields rows =
     \<lparr>fc_fields =
        \<lparr>field_name = oid_name, field_type = ''OID''\<rparr> #
        \<lparr>field_name = ''Shape'', field_type = ''Geometry''\<rparr> #
        kept_fields oid_name source_fields,
      fc_rows =
        map (\<lambda>kr. new_row oid_name source_fields (fst kr) (snd kr)) (zip [1..int (length rows)] rows)\<rparr>"

definition CopyFeatures :: "string \<Rightarrow> 'a layer \<Rightarrow> 'a feature_class" where
  "CopyFeatures oid_name l = new_feature_class oid_name (layer_fields l) (SearchCursor l)"

text \<open>
  \<open>FeatureToPoint\<close> with the option CENTROID. The centroid is computed by the library, the
  parameter \<open>centroid_of\<close>; it yields \<open>None\<close> for a shape the library makes no point for,
  and the output then has no row for that feature. The tool also adds the field
  \<open>ORIG_FID\<close>, which the script never reads and which is left out here.
\<close>

definition FeatureToPoint ::
  "('g \<Rightarrow> ('c \<times> 'c) option) \<Rightarrow> string \<Rightarrow> 'g feature_class \<Rightarrow> ('c \<times> 'c) feature_class" where
  "FeatureToPoint centroid_of oid_name fc =
     new_feature_class oid_name (fc_fields fc)
       (List.map_filter
          (\<lambda>row. map_option (\<lambda>p. \<lparr>attributes = attributes row, SHAPE = p\<rparr>) (centroid_of (SHAPE row)))
          (fc_rows fc))"

section \<open>check_object_id\<close>

text \<open>
  The list comprehension of the function: the names of the fields that are not of type
  Geometry. When none of the three branches binds \<open>points_id\<close>, the \<open>return\<close> raises.
\<close>

definition field_names :: "arc_field list \<Rightarrow> string list" where
  "field_names field_objects =
     map field_name (filter (\<lambda>field. field_type field \<noteq> ''Geometry'') field_objects)"

definition check_object_id :: "arc_field list \<Rightarrow> error + string" where
  "check_object_id field_objects =
     (let fields = field_names field_objects
      in if ''OID'' \<in> set fields then Inr ''OID''
         else if ''OBJECTID'' \<in> set fields then Inr ''OBJECTID''
         else if ''ObjectID'' \<in> set fields then Inr ''ObjectID''
         else Inl UnboundLocalError)"

section \<open>create_line\<close>

text \<open>
  The cursor loop appends each selected point to the array and constructs a polyline
  from the array after every point; \<open>line\<close> stays unbound when the cursor yields no row,
  and the copy after the loop then raises. The loop returns the last polyline, which is
  the one copied to \<open>in_memory\line\<close>, and the number of polylines constructed so far.
\<close>

fun create_line_loop ::
  "('c \<times> 'c) list \<Rightarrow> ('c \<times> 'c) list \<Rightarrow> ('c \<times> 'c) list option \<Rightarrow> nat \<Rightarrow>
     ('c \<times> 'c) list option \<times> nat" where
  "create_line_loop [] array_tmp line constructed = (line, constructed)"
| "create_line_loop (row # cursor) array_tmp line constructed =
     create_line_loop cursor (array_tmp @ [(fst row, snd row)])
       (Some (array_tmp @ [(fst row, snd row)])) (Suc constructed)"

definition create_line :: "('c \<times> 'c) layer \<Rightarrow> nat \<Rightarrow> error + (('c \<times> 'c) list \<times> nat)" where
  "create_line points_layer constructed =
     (case create_line_loop (map SHAPE (SearchCursor points_layer)) [] None constructed of
        (None, n) \<Rightarrow> Inl UnboundLocalError
      | (Some line, n) \<Rightarrow> Inr (line, n))"

section \<open>main\<close>

text \<open>
  The state of the analysis loop: the two layers with their current selections and the
  dictionary under construction. Two further components record what the run does: the
  number of polylines constructed by \<open>create_line\<close> so far, and the pairs \<open>(i, j)\<close> for
  which the spatial selection has been run, in order.
\<close>

record ('c, 'g) state =
  layer_centroids :: "('c \<times> 'c) layer"
  layer_polygons :: "'g layer"
  dict_out :: "int \<rightharpoonup> int list"
  polylines_constructed :: nat
  pairs_tested :: "(int \<times> int) list"

fun count_rows :: "'a list \<Rightarrow> int \<Rightarrow> int" where
  "count_rows [] n_crossed_building = n_crossed_building"
| "count_rows (row # cursor) n_crossed_building = count_rows cursor (n_crossed_building + 1)"

definition loop_body ::
  "(('c \<times> 'c) list \<Rightarrow> 'g \<Rightarrow> bool) \<Rightarrow> string \<Rightarrow> string \<Rightarrow> int \<Rightarrow> int \<Rightarrow> ('c, 'g) state \<Rightarrow>
     error + ('c, 'g) state" where
  "loop_body isect centroids_id_field buildings_id_field i j st =
     (let clause_centroids =
            Or (Equals centroids_id_field (IntV i)) (Equals centroids_id_field (IntV j));
          centroids_sel = SelectLayerByAttribute (layer_centroids st) NEW_SELECTION clause_centroids
      in case create_line centroids_sel (polylines_constructed st) of
           Inl e \<Rightarrow> Inl e
         | Inr line_n \<Rightarrow>
             (let polygons_sel =
                    SelectLayerByLocation isect (layer_polygons st) (fst line_n) NEW_SELECTION;
                  n_crossed_building =
                    count_rows (map (field_value buildings_id_field) (SearchCursor polygons_sel)) 0
              in case dict_out st i of
                   None \<Rightarrow> Inl KeyError
                 | Some row \<Rightarrow>
                     Inr (st\<lparr>layer_centroids := centroids_sel,
                             layer_polygons := polygons_sel,
                             dict_out := (dict_out st)(i \<mapsto> row @ [n_crossed_building]),
                             polylines_constructed := snd line_n,
                             pairs_tested := pairs_tested st @ [(i, j)]\<rparr>)))"

fun inner_loop ::
  "(('c \<times> 'c) list \<Rightarrow> 'g \<Rightarrow> bool) \<Rightarrow> string \<Rightarrow> string \<Rightarrow> int \<Rightarrow> int list \<Rightarrow> ('c, 'g) state \<Rightarrow>
     error + ('c, 'g) state" where
  "inner_loop isect centroids_id_field buildings_id_field i [] st = Inr st"
| "inner_loop isect centroids_id_field buildings_id_field i (j # js) st =
     (case loop_body isect centroids_id_field buildings_id_field i j st of
        Inl e \<Rightarrow> Inl e
      | Inr st' \<Rightarrow> inner_loop isect centroids_id_field buildings_id_field i js st')"

fun outer_loop ::
  "(('c \<times> 'c) list \<Rightarrow> 'g \<Rightarrow> bool) \<Rightarrow> string \<Rightarrow> string \<Rightarrow> int list \<Rightarrow> int list \<Rightarrow> ('c, 'g) state \<Rightarrow>
     error + ('c, 'g) state" where
  "outer_loop isect centroids_id_field buildings_id_field js [] st = Inr st"
| "outer_loop isect centroids_id_field buildings_id_field js (i # is) st =
     (case inner_loop isect centroids_id_field buildings_id_field i js
             (st\<lparr>dict_out := (dict_out st)(i \<mapsto> [])\<rparr>) of
        Inl e \<Rightarrow> Inl e
      | Inr st' \<Rightarrow> outer_loop isect centroids_id_field buildings_id_field js is st')"

text \<open>
  The coordinate loop: the key is the value of the id field, the coordinates are those
  \<open>AddXY\<close> has written to \<open>POINT_X\<close> and \<open>POINT_Y\<close>, the coordinates of the point.
\<close>

fun geo_coord_loop ::
  "string \<Rightarrow> ('c \<times> 'c) feature list \<Rightarrow> (val \<rightharpoonup> 'c \<times> 'c) \<Rightarrow> (val \<rightharpoonup> 'c \<times> 'c)" where
  "geo_coord_loop centroids_id_field [] geo_coord = geo_coord"
| "geo_coord_loop centroids_id_field (row # cursor) geo_coord =
     geo_coord_loop centroids_id_field cursor
       (geo_coord(field_value centroids_id_field row \<mapsto> (fst (SHAPE row), snd (SHAPE row))))"

text \<open>The filtering step: select \<open>building = 'yes'\<close> and copy the selection.\<close>

definition filter_buildings :: "string \<Rightarrow> 'g feature_class \<Rightarrow> 'g feature_class" where
  "filter_buildings oid_name buildings_not_filtered =
     CopyFeatures oid_name
       (SelectLayerByAttribute (MakeFeatureLayer buildings_not_filtered) NEW_SELECTION
          (Equals ''building'' (StrV ''yes'')))"

text \<open>
  The state in which the analysis loop starts, and the run up to the end of the loop on
  the ranges \<open>range(1, n_centroids + 1)\<close>, with the two id fields \<open>check_object_id\<close> finds.
\<close>

definition initial_state ::
  "('g \<Rightarrow> ('c \<times> 'c) option) \<Rightarrow> string \<Rightarrow> 'g feature_class \<Rightarrow> ('c, 'g) state" where
  "initial_state centroid_of oid_name buildings_not_filtered =
     (let buildings = filter_buildings oid_name buildings_not_filtered;
          centroids = FeatureToPoint centroid_of oid_name buildings
      in \<lparr>layer_centroids = MakeFeatureLayer centroids,
          layer_polygons = MakeFeatureLayer buildings,
          dict_out = Map.empty,
          polylines_constructed = 0,
          pairs_tested = []\<rparr>)"

definition analysis ::
  "(('c \<times> 'c) list \<Rightarrow> 'g \<Rightarrow> bool) \<Rightarrow> ('g \<Rightarrow> ('c \<times> 'c) option) \<Rightarrow> string \<Rightarrow> 'g feature_class \<Rightarrow>
     error + (string \<times> ('c, 'g) state)" where
  "analysis isect centroid_of oid_name buildings_not_filtered =
     (let buildings = filter_buildings oid_name buildings_not_filtered;
          centroids = FeatureToPoint centroid_of oid_name buildings;
          n_centroids = GetCount centroids
      in case check_object_id (ListFields centroids) of
           Inl e \<Rightarrow> Inl e
         | Inr centroids_id_field \<Rightarrow>
             (case check_object_id (ListFields buildings) of
                Inl e \<Rightarrow> Inl e
              | Inr buildings_id_field \<Rightarrow>
                  (case outer_loop isect centroids_id_field buildings_id_field
                          [1..n_centroids] [1..n_centroids]
                          (initial_state centroid_of oid_name buildings_not_filtered) of
                     Inl e \<Rightarrow> Inl e
                   | Inr st \<Rightarrow> Inr (centroids_id_field, st))))"

text \<open>
  \<open>main\<close> returns the two dictionaries it pickles: the coordinates and the crossing
  counts. The parameter \<open>oid_name\<close> stands for the output workspace \<open>fc_out\<close>.
\<close>

definition main ::
  "(('c \<times> 'c) list \<Rightarrow> 'g \<Rightarrow> bool) \<Rightarrow> ('g \<Rightarrow> ('c \<times> 'c) option) \<Rightarrow> string \<Rightarrow> 'g feature_class \<Rightarrow>
     error + ((val \<rightharpoonup> 'c \<times> 'c) \<times> (int \<rightharpoonup> int list))" where
  "main isect centroid_of oid_name buildings_not_filtered =
     (let centroids = FeatureToPoint centroid_of oid_name (filter_buildings oid_name buildings_not_filtered)
      in case analysis isect centroid_of oid_name buildings_not_filtered of
           Inl e \<Rightarrow> Inl e
         | Inr id_st \<Rightarrow>
             Inr (geo_coord_loop (fst id_st) (fc_rows centroids) Map.empty, dict_out (snd id_st)))"

section \<open>What one pass of the loop body computes\<close>

text \<open>
  Closed forms of the loop body, proved below to be what it computes: the polyline that
  \<open>create_line\<close> builds from the centroids selected by \<open>id = i Or id = j\<close> (in table
  order), and the number of polygon rows that the INTERSECT selection keeps for it.
\<close>

definition pair_line :: "string \<Rightarrow> ('c \<times> 'c) feature list \<Rightarrow> int \<Rightarrow> int \<Rightarrow> ('c \<times> 'c) list" where
  "pair_line id_field centroids i j =
     map SHAPE (filter (holds (Or (Equals id_field (IntV i)) (Equals id_field (IntV j)))) centroids)"

definition pair_count ::
  "(('c \<times> 'c) list \<Rightarrow> 'g \<Rightarrow> bool) \<Rightarrow> string \<Rightarrow> ('c \<times> 'c) feature list \<Rightarrow> 'g feature list \<Rightarrow>
     int \<Rightarrow> int \<Rightarrow> int" where
  "pair_count isect id_field centroids buildings i j =
     int (length (filter (\<lambda>row. isect (pair_line id_field centroids i j) (SHAPE row)) buildings))"

definition is_building :: "'g feature \<Rightarrow> bool" where
  "is_building row \<longleftrightarrow> field_value ''building'' row = StrV ''yes''"

section \<open>Reading the outputs\<close>

text \<open>
  The crossing matrix is the dictionary of rows; entry \<open>(i, j)\<close> is the \<open>j\<close>-th element,
  counted from 1, of the row stored under \<open>i\<close>. These readers return \<open>None\<close> when the run
  raised or the entry does not exist.
\<close>

definition matrix_entry ::
  "error + ((val \<rightharpoonup> 'c \<times> 'c) \<times> (int \<rightharpoonup> int list)) \<Rightarrow> int \<Rightarrow> int \<Rightarrow> int option" where
  "matrix_entry result i j =
     (case result of
        Inl e \<Rightarrow> None
      | Inr out \<Rightarrow>
          (case snd out i of
             None \<Rightarrow> None
           | Some row \<Rightarrow> if 1 \<le> j \<and> j \<le> int (length row) then Some (row ! nat (j - 1)) else None))"

definition matrix_row ::
  "error + ((val \<rightharpoonup> 'c \<times> 'c) \<times> (int \<rightharpoonup> int list)) \<Rightarrow> int \<Rightarrow> int list option" where
  "matrix_row result i = (case result of Inl e \<Rightarrow> None | Inr out \<Rightarrow> snd out i)"

definition coordinate_entry ::
  "error + ((val \<rightharpoonup> 'c \<times> 'c) \<times> (int \<rightharpoonup> int list)) \<Rightarrow> val \<Rightarrow> ('c \<times> 'c) option" where
  "coordinate_entry result key = (case result of Inl e \<Rightarrow> None | Inr out \<Rightarrow> fst out key)"

definition pairs_processed :: "error + (string \<times> ('c, 'g) state) \<Rightarrow> (int \<times> int) list option" where
  "pairs_processed result =
     (case result of Inl e \<Rightarrow> None | Inr id_st \<Rightarrow> Some (pairs_tested (snd id_st)))"

definition polylines_built :: "error + (string \<times> ('c, 'g) state) \<Rightarrow> nat option" where
  "polylines_built result =
     (case result of Inl e \<Rightarrow> None | Inr id_st \<Rightarrow> Some (polylines_constructed (snd id_st)))"


section \<open>The obstruction count as the specification words it\<close>

text \<open>
  The number of other buildings \<open>k\<close>, \<open>k \<noteq> i\<close> and \<open>k \<noteq> j\<close>, whose polygon is intersected
  by the segment joining the centroids of \<open>i\<close> and \<open>j\<close>. This definition follows the
  specification, not the script; it is what the script's result is compared with.
\<close>

definition obstruction_count ::
  "(('c \<times> 'c) list \<Rightarrow> 'g \<Rightarrow> bool) \<Rightarrow> string \<Rightarrow> ('c \<times> 'c) feature list \<Rightarrow> 'g feature list \<Rightarrow>
     int \<Rightarrow> int \<Rightarrow> int option" where
  "obstruction_count isect id_field centroids buildings i j =
     (case find (\<lambda>row. field_value id_field row = IntV i) centroids of
        None \<Rightarrow> None
      | Some ci \<Rightarrow>
          (case find (\<lambda>row. field_value id_field row = IntV j) centroids of
             None \<Rightarrow> None
           | Some cj \<Rightarrow>
               Some (int (length (filter
                 (\<lambda>row. field_value id_field row \<noteq> IntV i \<and> field_value id_field row \<noteq> IntV j
                          \<and> isect [SHAPE ci, SHAPE cj] (SHAPE row))
                 buildings)))))"

section \<open>A geometry for concrete scenarios\<close>

text \<open>
  Modelled from the spec: the geometric primitives are not part of the script, which
  calls the geoprocessing library for them. For concrete scenarios they are instantiated
  on integer coordinates as the specification describes them: a line intersects a polygon
  when one of its segments meets an edge of the ring (crossing, touching or collinear
  overlap) or one of its vertices lies inside the polygon or on its boundary; any contact
  counts. The centroid is the centre of gravity of the ring; a ring that encloses no
  area has none.
\<close>

type_synonym point = "int \<times> int"

definition cross :: "point \<Rightarrow> point \<Rightarrow> point \<Rightarrow> int" where
  "cross a b c = (fst b - fst a) * (snd c - snd a) - (snd b - snd a) * (fst c - fst a)"

definition on_segment :: "point \<Rightarrow> point \<Rightarrow> point \<Rightarrow> bool" where
  "on_segment a b p \<longleftrightarrow>
     cross a b p = 0 \<and> min (fst a) (fst b) \<le> fst p \<and> fst p \<le> max (fst a) (fst b)
       \<and> min (snd a) (snd b) \<le> snd p \<and> snd p \<le> max (snd a) (snd b)"

definition segments_intersect :: "point \<Rightarrow> point \<Rightarrow> point \<Rightarrow> point \<Rightarrow> bool" where
  "segments_intersect a b c d \<longleftrightarrow>
     (0 < cross c d a \<and> cross c d b < 0 \<or> cross c d a < 0 \<and> 0 < cross c d b)
       \<and> (0 < cross a b c \<and> cross a b d < 0 \<or> cross a b c < 0 \<and> 0 < cross a b d)
     \<or> on_segment c d a \<or> on_segment c d b \<or> on_segment a b c \<or> on_segment a b d"

definition ring_edges :: "point list \<Rightarrow> (point \<times> point) list" where
  "ring_edges polygon = zip polygon (rotate1 polygon)"

definition crosses_ray :: "point \<Rightarrow> point \<times> point \<Rightarrow> bool" where
  "crosses_ray p e \<longleftrightarrow>
     snd (fst e) \<le> snd p \<and> snd p < snd (snd e) \<and> 0 < cross (fst e) (snd e) p
     \<or> snd (snd e) \<le> snd p \<and> snd p < snd (fst e) \<and> cross (fst e) (snd e) p < 0"

definition point_in_polygon :: "point \<Rightarrow> point list \<Rightarrow> bool" where
  "point_in_polygon p polygon \<longleftrightarrow>
     list_ex (\<lambda>e. on_segment (fst e) (snd e) p) (ring_edges polygon)
     \<or> odd (length (filter (crosses_ray p) (ring_edges polygon)))"

definition line_segments :: "point list \<Rightarrow> (point \<times> point) list" where
  "line_segments line = zip line (tl line)"

definition segmentIntersectsPolygon :: "point list \<Rightarrow> point list \<Rightarrow> bool" where
  "segmentIntersectsPolygon line polygon \<longleftrightarrow>
     list_ex (\<lambda>s. list_ex (\<lambda>e. segments_intersect (fst s) (snd s) (fst e) (snd e)) (ring_edges polygon))
       (line_segments line)
     \<or> list_ex (\<lambda>p. point_in_polygon p polygon) line"

definition centroid :: "point list \<Rightarrow> point option" where
  "centroid polygon =
     (let es = ring_edges polygon;
          w = (\<lambda>e. fst (fst e) * snd (snd e) - fst (snd e) * snd (fst e));
          a2 = sum_list (map w es)
      in if a2 = 0 then None
         else Some (sum_list (map (\<lambda>e. (fst (fst e) + fst (snd e)) * w e) es) div (3 * a2),
                    sum_list (map (\<lambda>e. (snd (fst e) + snd (snd e)) * w e) es) div (3 * a2)))"



section \<open>Scenarios\<close>

text \<open>
  Footprints are squares of side 2. The input feature classes have the fields of
  polygons in a geodatabase, and the output workspace is a geodatabase too, so that the
  object-id field is \<open>OBJECTID\<close>. The second scenario holds a polygon that is not a
  building, the third a polygon with two vertices only, between two squares. In the
  fourth the input has an integer attribute named \<open>OID\<close> beside its object id.
\<close>

definition square :: "int \<Rightarrow> int \<Rightarrow> point list" where
  "square x y = [(x, y), (x + 2, y), (x + 2, y + 2), (x, y + 2)]"

definition gdb_fields :: "arc_field list" where
  "gdb_fields =
     [\<lparr>field_name = ''OBJECTID'', field_type = ''OID''\<rparr>,
      \<lparr>field_name = ''Shape'', field_type = ''Geometry''\<rparr>,
      \<lparr>field_name = ''building'', field_type = ''String''\<rparr>]"

definition shapefile_fields :: "arc_field list" where
  "shapefile_fields =
     [\<lparr>field_name = ''FID'', field_type = ''OID''\<rparr>,
      \<lparr>field_name = ''Shape'', field_type = ''Geometry''\<rparr>,
      \<lparr>field_name = ''building'', field_type = ''String''\<rparr>]"

definition polygon_row :: "int \<Rightarrow> string \<Rightarrow> point list \<Rightarrow> point list feature" where
  "polygon_row k tag polygon =
     \<lparr>attributes = [(''OBJECTID'', IntV k), (''building'', StrV tag)], SHAPE = polygon\<rparr>"

definition two_buildings :: "point list feature_class" where
  "two_buildings =
     \<lparr>fc_fields = gdb_fields,
      fc_rows = [polygon_row 1 ''yes'' (square 0 0), polygon_row 2 ''yes'' (square 10 0)]\<rparr>"

definition three_in_a_row :: "point list feature_class" where
  "three_in_a_row =
     \<lparr>fc_fields = gdb_fields,
      fc_rows = [polygon_row 1 ''yes'' (square 0 0), polygon_row 2 ''park'' (square 0 10),
                 polygon_row 3 ''yes'' (square 10 0), polygon_row 4 ''yes'' (square 20 0)]\<rparr>"



text \<open>
  A centroid function and an intersection test that differ from the ones above on one
  polygon only, the square at \<open>(0, 10)\<close>, which is the park of the second scenario.
\<close>

definition shifted_centroid :: "point list \<Rightarrow> point option" where
  "shifted_centroid polygon = (if polygon = square 0 10 then Some (99, 99) else centroid polygon)"

definition eager_intersects :: "point list \<Rightarrow> point list \<Rightarrow> bool" where
  "eager_intersects line polygon \<longleftrightarrow> polygon = square 0 10 \<or> segmentIntersectsPolygon line polygon"


section \<open>The loops in closed form\<close>

lemma create_line_loop_eq:
  "create_line_loop rows array_tmp line constructed =
     (if rows = [] then line else Some (array_tmp @ rows), constructed + length rows)"
  by (induction rows arbitrary: array_tmp line constructed) simp_all

lemma count_rows_eq: "count_rows rows n = n + int (length rows)"
  by (induction rows arbitrary: n) simp_all

lemma select_layer_rows: "layer_rows (select_layer l t P) = layer_rows l"
  by (simp add: select_layer_def)

lemma select_layer_new:
  "layer_selection (select_layer l NEW_SELECTION P) = Some (filter P (layer_rows l))"
  by (simp add: select_layer_def)

lemma select_attribute_rows: "layer_rows (SelectLayerByAttribute l t c) = layer_rows l"
  by (simp add: SelectLayerByAttribute_def select_layer_def)

lemma select_location_rows: "layer_rows (SelectLayerByLocation isect l line t) = layer_rows l"
  by (simp add: SelectLayerByLocation_def select_layer_def)

lemma create_line_select:
  "create_line
     (SelectLayerByAttribute l NEW_SELECTION (Or (Equals f (IntV i)) (Equals f (IntV j)))) c =
     (if pair_line f (layer_rows l) i j = [] then Inl UnboundLocalError
      else Inr (pair_line f (layer_rows l) i j, c + length (pair_line f (layer_rows l) i j)))"
  by (simp add: create_line_def SelectLayerByAttribute_def select_layer_def SearchCursor_def
        create_line_loop_eq pair_line_def)

lemma loop_body_raises:
  "pair_line cid (layer_rows (layer_centroids st)) i j = [] \<Longrightarrow>
     loop_body isect cid bid i j st = Inl UnboundLocalError"
  by (simp add: loop_body_def create_line_select Let_def)

lemma loop_body_key_error:
  "dict_out st i = None \<Longrightarrow> \<exists>e. loop_body isect cid bid i j st = Inl e"
  by (simp add: loop_body_def create_line_select Let_def)

lemma loop_body_Inr:
  assumes "pair_line cid (layer_rows (layer_centroids st)) i j \<noteq> []" and "dict_out st i = Some row"
  shows "\<exists>st'. loop_body isect cid bid i j st = Inr st'
           \<and> layer_rows (layer_centroids st') = layer_rows (layer_centroids st)
           \<and> layer_rows (layer_polygons st') = layer_rows (layer_polygons st)
           \<and> dict_out st' = (dict_out st)(i \<mapsto> row @
                 [pair_count isect cid (layer_rows (layer_centroids st)) (layer_rows (layer_polygons st)) i j])
           \<and> polylines_constructed st' =
               polylines_constructed st + length (pair_line cid (layer_rows (layer_centroids st)) i j)
           \<and> pairs_tested st' = pairs_tested st @ [(i, j)]"
  using assms
  by (simp add: loop_body_def create_line_select Let_def SelectLayerByLocation_def
        select_layer_rows select_layer_new SearchCursor_def count_rows_eq pair_count_def
        select_attribute_rows)

lemma loop_body_returns:
  assumes "loop_body isect cid bid i j st = Inr st'"
  shows "pair_line cid (layer_rows (layer_centroids st)) i j \<noteq> [] \<and> (\<exists>row. dict_out st i = Some row)"
proof -
  have "pair_line cid (layer_rows (layer_centroids st)) i j \<noteq> []"
    using assms loop_body_raises [of cid st i j isect bid] by auto
  moreover have "dict_out st i \<noteq> None"
    using assms loop_body_key_error [of st i isect cid bid j] by auto
  ultimately show ?thesis by auto
qed

lemma inner_loop_Inr:
  assumes "\<forall>j\<in>set js. pair_line cid (layer_rows (layer_centroids st)) i j \<noteq> []"
    and "dict_out st i = Some row"
  shows "\<exists>st'. inner_loop isect cid bid i js st = Inr st'
           \<and> layer_rows (layer_centroids st') = layer_rows (layer_centroids st)
           \<and> layer_rows (layer_polygons st') = layer_rows (layer_polygons st)
           \<and> dict_out st' = (dict_out st)(i \<mapsto> row @
                 map (pair_count isect cid (layer_rows (layer_centroids st)) (layer_rows (layer_polygons st)) i) js)
           \<and> polylines_constructed st' = polylines_constructed st +
                 sum_list (map (\<lambda>j. length (pair_line cid (layer_rows (layer_centroids st)) i j)) js)
           \<and> pairs_tested st' = pairs_tested st @ map (Pair i) js"
  using assms
proof (induction js arbitrary: st row)
  case Nil
  then show ?case by (auto simp: fun_eq_iff)
next
  case (Cons j js)
  let ?c = "layer_rows (layer_centroids st)" and ?p = "layer_rows (layer_polygons st)"
  from Cons.prems obtain st1 where
    s1: "loop_body isect cid bid i j st = Inr st1"
    and c1: "layer_rows (layer_centroids st1) = ?c"
    and p1: "layer_rows (layer_polygons st1) = ?p"
    and d1: "dict_out st1 = (dict_out st)(i \<mapsto> row @ [pair_count isect cid ?c ?p i j])"
    and n1: "polylines_constructed st1 = polylines_constructed st + length (pair_line cid ?c i j)"
    and t1: "pairs_tested st1 = pairs_tested st @ [(i, j)]"
    using loop_body_Inr [of cid st i j row isect bid] by auto
  have "\<forall>j\<in>set js. pair_line cid (layer_rows (layer_centroids st1)) i j \<noteq> []"
    using Cons.prems(1) c1 by simp
  moreover have "dict_out st1 i = Some (row @ [pair_count isect cid ?c ?p i j])"
    using d1 by simp
  ultimately obtain st2 where
    s2: "inner_loop isect cid bid i js st1 = Inr st2"
    and c2: "layer_rows (layer_centroids st2) = layer_rows (layer_centroids st1)"
    and p2: "layer_rows (layer_polygons st2) = layer_rows (layer_polygons st1)"
    and d2: "dict_out st2 = (dict_out st1)(i \<mapsto> (row @ [pair_count isect cid ?c ?p i j]) @
                 map (pair_count isect cid (layer_rows (layer_centroids st1)) (layer_rows (layer_polygons st1)) i) js)"
    and n2: "polylines_constructed st2 = polylines_constructed st1 +
                 sum_list (map (\<lambda>j. length (pair_line cid (layer_rows (layer_centroids st1)) i j)) js)"
    and t2: "pairs_tested st2 = pairs_tested st1 @ map (Pair i) js"
    using Cons.IH by blast
  have d: "dict_out st2 = (dict_out st)(i \<mapsto> row @ map (pair_count isect cid ?c ?p i) (j # js))"
    using d1 d2 c1 p1 by (auto simp: fun_eq_iff)
  show ?case
    using s1 s2 c1 c2 p1 p2 n1 n2 t1 t2 d by (auto simp: fun_eq_iff)
qed

lemma inner_loop_returns:
  assumes "inner_loop isect cid bid i js st = Inr st'"
  shows "\<forall>j\<in>set js. pair_line cid (layer_rows (layer_centroids st)) i j \<noteq> []"
  using assms
proof (induction js arbitrary: st)
  case Nil
  then show ?case by simp
next
  case (Cons j js)
  from Cons.prems obtain st1 where s1: "loop_body isect cid bid i j st = Inr st1"
    and s2: "inner_loop isect cid bid i js st1 = Inr st'"
    by (auto split: sum.splits)
  from loop_body_returns [OF s1] obtain row where
    v: "pair_line cid (layer_rows (layer_centroids st)) i j \<noteq> []" and r: "dict_out st i = Some row"
    by blast
  from loop_body_Inr [OF v r, of isect bid] s1
  have c1: "layer_rows (layer_centroids st1) = layer_rows (layer_centroids st)" by auto
  from Cons.IH [OF s2] c1 v show ?case by simp
qed

lemma outer_loop_Inr:
  assumes "\<forall>i\<in>set is. \<forall>j\<in>set js. pair_line cid (layer_rows (layer_centroids st)) i j \<noteq> []"
  shows "\<exists>st'. outer_loop isect cid bid js is st = Inr st'
           \<and> layer_rows (layer_centroids st') = layer_rows (layer_centroids st)
           \<and> layer_rows (layer_polygons st') = layer_rows (layer_polygons st)
           \<and> dict_out st' = (\<lambda>k. if k \<in> set is
                 then Some (map (pair_count isect cid (layer_rows (layer_centroids st))
                                   (layer_rows (layer_polygons st)) k) js)
                 else dict_out st k)
           \<and> polylines_constructed st' = polylines_constructed st +
                 sum_list (map (\<lambda>i. sum_list (map (\<lambda>j. length (pair_line cid (layer_rows (layer_centroids st)) i j)) js)) is)
           \<and> pairs_tested st' = pairs_tested st @ List.product is js"
  using assms
proof (induction "is" arbitrary: st)
  case Nil
  then show ?case by simp
next
  case (Cons i "is")
  let ?st0 = "st\<lparr>dict_out := (dict_out st)(i \<mapsto> [])\<rparr>"
  let ?c = "layer_rows (layer_centroids st)" and ?p = "layer_rows (layer_polygons st)"
  have "\<forall>j\<in>set js. pair_line cid (layer_rows (layer_centroids ?st0)) i j \<noteq> []"
    using Cons.prems by simp
  moreover have "dict_out ?st0 i = Some []" by simp
  ultimately obtain st1 where
    s1: "inner_loop isect cid bid i js ?st0 = Inr st1"
    and c1: "layer_rows (layer_centroids st1) = layer_rows (layer_centroids ?st0)"
    and p1: "layer_rows (layer_polygons st1) = layer_rows (layer_polygons ?st0)"
    and d1: "dict_out st1 = (dict_out ?st0)(i \<mapsto> [] @
                 map (pair_count isect cid (layer_rows (layer_centroids ?st0)) (layer_rows (layer_polygons ?st0)) i) js)"
    and n1: "polylines_constructed st1 = polylines_constructed ?st0 +
                 sum_list (map (\<lambda>j. length (pair_line cid (layer_rows (layer_centroids ?st0)) i j)) js)"
    and t1: "pairs_tested st1 = pairs_tested ?st0 @ map (Pair i) js"
    using inner_loop_Inr [of js cid ?st0 i "[]" isect bid] by blast
  have "\<forall>i\<in>set is. \<forall>j\<in>set js. pair_line cid (layer_rows (layer_centroids st1)) i j \<noteq> []"
    using Cons.prems c1 by simp
  then obtain st2 where
    s2: "outer_loop isect cid bid js is st1 = Inr st2"
    and c2: "layer_rows (layer_centroids st2) = layer_rows (layer_centroids st1)"
    and p2: "layer_rows (layer_polygons st2) = layer_rows (layer_polygons st1)"
    and d2: "dict_out st2 = (\<lambda>k. if k \<in> set is
                 then Some (map (pair_count isect cid (layer_rows (layer_centroids st1))
                                   (layer_rows (layer_polygons st1)) k) js)
                 else dict_out st1 k)"
    and n2: "polylines_constructed st2 = polylines_constructed st1 +
                 sum_list (map (\<lambda>i. sum_list (map (\<lambda>j. length (pair_line cid (layer_rows (layer_centroids st1)) i j)) js)) is)"
    and t2: "pairs_tested st2 = pairs_tested st1 @ List.product is js"
    using Cons.IH [of st1] by blast
  have d: "dict_out st2 = (\<lambda>k. if k \<in> set (i # is)
                 then Some (map (pair_count isect cid ?c ?p k) js) else dict_out st k)"
    using d2 d1 c1 p1 by (auto simp: fun_eq_iff)
  have n: "polylines_constructed st2 = polylines_constructed st +
                 sum_list (map (\<lambda>i. sum_list (map (\<lambda>j. length (pair_line cid ?c i j)) js)) (i # is))"
    using n1 n2 c1 by simp
  have t: "pairs_tested st2 = pairs_tested st @ List.product (i # is) js"
    using t1 t2 by simp
  show ?case
    using s1 s2 c1 c2 p1 p2 d n t by (auto simp: fun_eq_iff)
qed

lemma outer_loop_returns:
  assumes "outer_loop isect cid bid js is st = Inr st'"
  shows "\<forall>i\<in>set is. \<forall>j\<in>set js. pair_line cid (layer_rows (layer_centroids st)) i j \<noteq> []"
  using assms
proof (induction "is" arbitrary: st)
  case Nil
  then show ?case by simp
next
  case (Cons i "is")
  let ?st0 = "st\<lparr>dict_out := (dict_out st)(i \<mapsto> [])\<rparr>"
  from Cons.prems obtain st1 where s1: "inner_loop isect cid bid i js ?st0 = Inr st1"
    and s2: "outer_loop isect cid bid js is st1 = Inr st'"
    by (auto split: sum.splits)
  from inner_loop_returns [OF s1]
  have v: "\<forall>j\<in>set js. pair_line cid (layer_rows (layer_centroids st)) i j \<noteq> []" by simp
  then have "\<forall>j\<in>set js. pair_line cid (layer_rows (layer_centroids ?st0)) i j \<noteq> []" by simp
  from inner_loop_Inr [OF this, of "[]" isect bid] s1
  have c1: "layer_rows (layer_centroids st1) = layer_rows (layer_centroids st)" by auto
  from Cons.IH [OF s2] c1 v show ?case by simp
qed

section \<open>Feature classes and id fields\<close>

subsection \<open>New feature classes\<close>

lemma rows_new_feature_class:
  "fc_rows (new_feature_class oid_name fs rows) =
     map (\<lambda>kr. new_row oid_name fs (fst kr) (snd kr)) (zip [1..int (length rows)] rows)"
  by (simp add: new_feature_class_def)

lemma length_new_feature_class: "length (fc_rows (new_feature_class oid_name fs rows)) = length rows"
  by (simp add: new_feature_class_def)

lemma nth_new_feature_class:
  "k < length rows \<Longrightarrow>
     fc_rows (new_feature_class oid_name fs rows) ! k = new_row oid_name fs (int k + 1) (rows ! k)"
  by (simp add: new_feature_class_def add.commute)

lemma shape_new_row: "SHAPE (new_row oid_name fs k row) = SHAPE row"
  by (simp add: new_row_def)

lemma oid_new_row: "field_value oid_name (new_row oid_name fs k row) = IntV k"
  by (simp add: new_row_def field_value_def)

lemma shapes_new_feature_class:
  "map SHAPE (fc_rows (new_feature_class oid_name fs rows)) = map SHAPE rows"
  by (rule nth_equalityI) (simp_all add: length_new_feature_class nth_new_feature_class shape_new_row)

lemma oids_new_feature_class:
  "map (field_value oid_name) (fc_rows (new_feature_class oid_name fs rows)) =
     map IntV [1..int (length rows)]"
  by (rule nth_equalityI) (simp_all add: length_new_feature_class nth_new_feature_class oid_new_row)

lemma kept_fields_idem:
  assumes "field_type a = ''OID''" and "field_type b = ''Geometry''"
  shows "kept_fields oid_name (a # b # kept_fields oid_name fs) = kept_fields oid_name fs"
  using assms by (simp add: kept_fields_def)

lemma fields_new_of_new:
  "fc_fields (new_feature_class oid_name (fc_fields (new_feature_class oid_name fs rows)) rows') =
     fc_fields (new_feature_class oid_name fs rows)"
  by (simp add: new_feature_class_def kept_fields_idem)

subsection \<open>The two feature classes main writes\<close>

lemma holds_building: "holds (Equals ''building'' (StrV ''yes'')) = is_building"
  by (simp add: fun_eq_iff is_building_def)

lemma filter_buildings_eq:
  "filter_buildings oid_name input =
     new_feature_class oid_name (fc_fields input) (filter is_building (fc_rows input))"
  by (simp add: filter_buildings_def CopyFeatures_def SelectLayerByAttribute_def select_layer_def
        MakeFeatureLayer_def SearchCursor_def holds_building)

lemma filter_buildings_idem:
  "filter_buildings oid_name (input\<lparr>fc_rows := filter is_building (fc_rows input)\<rparr>) =
     filter_buildings oid_name input"
  by (simp add: filter_buildings_eq)

lemma shapes_filter_buildings:
  "map SHAPE (fc_rows (filter_buildings oid_name input)) = map SHAPE (filter is_building (fc_rows input))"
  by (simp add: filter_buildings_eq shapes_new_feature_class)

lemma fields_FeatureToPoint:
  "ListFields (FeatureToPoint centroid_of oid_name (filter_buildings oid_name input)) =
     ListFields (filter_buildings oid_name input)"
  by (simp add: ListFields_def FeatureToPoint_def filter_buildings_eq fields_new_of_new)

lemma shapes_map_filter:
  "map SHAPE (List.map_filter
      (\<lambda>row. map_option (\<lambda>p. \<lparr>attributes = attributes row, SHAPE = p\<rparr>) (centroid_of (SHAPE row))) rows) =
   List.map_filter centroid_of (map SHAPE rows)"
  by (induction rows) (auto split: option.splits)

lemma shapes_FeatureToPoint:
  "map SHAPE (fc_rows (FeatureToPoint centroid_of oid_name fc)) =
     List.map_filter centroid_of (map SHAPE (fc_rows fc))"
  by (simp add: FeatureToPoint_def shapes_new_feature_class shapes_map_filter)

lemma oids_FeatureToPoint:
  "map (field_value oid_name) (fc_rows (FeatureToPoint centroid_of oid_name fc)) =
     map IntV [1..GetCount (FeatureToPoint centroid_of oid_name fc)]"
  by (simp add: FeatureToPoint_def oids_new_feature_class GetCount_def length_new_feature_class)

subsection \<open>Selecting centroids by the id field\<close>

lemma pair_line_nonempty_iff:
  "pair_line cid centroids i j \<noteq> [] \<longleftrightarrow>
     IntV i \<in> set (map (field_value cid) centroids) \<or> IntV j \<in> set (map (field_value cid) centroids)"
proof -
  have "pair_line cid centroids i j \<noteq> [] \<longleftrightarrow>
          (\<exists>row\<in>set centroids. field_value cid row = IntV i \<or> field_value cid row = IntV j)"
    by (simp add: pair_line_def filter_empty_conv)
  also have "\<dots> \<longleftrightarrow> IntV i \<in> field_value cid ` set centroids \<or> IntV j \<in> field_value cid ` set centroids"
    by (metis (mono_tags, lifting) image_iff)
  finally show ?thesis by simp
qed

lemma pair_line_commute: "pair_line cid centroids i j = pair_line cid centroids j i"
proof -
  have "holds (Or (Equals cid (IntV i)) (Equals cid (IntV j))) =
        (holds (Or (Equals cid (IntV j)) (Equals cid (IntV i))) :: ('a \<times> 'a) feature \<Rightarrow> bool)"
    by (auto simp: fun_eq_iff)
  then show ?thesis by (simp add: pair_line_def)
qed

lemma pair_count_commute:
  "pair_count isect cid centroids buildings i j = pair_count isect cid centroids buildings j i"
  by (simp add: pair_count_def pair_line_commute [of cid centroids i j])

lemma pair_count_cong:
  assumes "\<And>line row. row \<in> set buildings \<Longrightarrow> isect' line (SHAPE row) = isect line (SHAPE row)"
  shows "pair_count isect' cid centroids buildings i j = pair_count isect cid centroids buildings i j"
proof -
  have "filter (\<lambda>row. isect' (pair_line cid centroids i j) (SHAPE row)) buildings =
        filter (\<lambda>row. isect (pair_line cid centroids i j) (SHAPE row)) buildings"
    by (rule filter_cong) (simp_all add: assms)
  then show ?thesis by (simp add: pair_count_def)
qed

text \<open>Ids that cover \<open>1..n\<close> in a table of \<open>n\<close> rows are distinct and are exactly \<open>1..n\<close>.\<close>

lemma covering_ids_distinct:
  assumes "IntV ` {1..int (length ids)} \<subseteq> set ids"
  shows "distinct ids \<and> set ids = IntV ` {1..int (length ids)}"
proof -
  have inj: "inj_on IntV {1..int (length ids)}" by (simp add: inj_on_def)
  have c: "card (IntV ` {1..int (length ids)}) = length ids"
    by (simp add: card_image [OF inj])
  have "card (IntV ` {1..int (length ids)}) \<le> card (set ids)"
    using assms by (intro card_mono) simp_all
  with c have "length ids \<le> card (set ids)" by simp
  moreover have "card (set ids) \<le> length ids" by (rule card_length)
  ultimately have e: "card (set ids) = length ids" by simp
  then have "distinct ids" by (rule card_distinct)
  moreover have "IntV ` {1..int (length ids)} = set ids"
    using assms c e by (intro card_subset_eq) simp_all
  ultimately show ?thesis by simp
qed

lemma filter_key_unique:
  assumes "distinct (map f rows)" and "k < length rows"
  shows "filter (\<lambda>row. f row = f (rows ! k)) rows = [rows ! k]"
  using assms
proof (induction rows arbitrary: k)
  case Nil
  then show ?case by simp
next
  case (Cons r rows)
  show ?case
  proof (cases k)
    case 0
    have "f r \<notin> f ` set rows"
      using Cons.prems(1) by simp
    then have "\<forall>row\<in>set rows. f row \<noteq> f r"
      by (metis imageI)
    then have "filter (\<lambda>row. f row = f r) rows = []"
      by (simp add: filter_empty_conv)
    with 0 show ?thesis by simp
  next
    case (Suc m)
    then have m: "m < length rows" using Cons.prems(2) by simp
    have "rows ! m \<in> set rows" using m by simp
    then have "f (rows ! m) \<in> f ` set rows" by (rule imageI)
    moreover have "f r \<notin> f ` set rows" using Cons.prems(1) by simp
    ultimately have "f r \<noteq> f (rows ! m)" by metis
    with Suc Cons.IH [of m] Cons.prems(1) m show ?thesis by simp
  qed
qed

lemma unique_row_with_id:
  assumes "distinct (map f rows)" and "v \<in> set (map f rows)"
  shows "\<exists>r. filter (\<lambda>row. f row = v) rows = [r] \<and> r \<in> set rows \<and> f r = v"
proof -
  from assms(2) obtain k where k: "k < length rows" and v: "f (rows ! k) = v"
    by (auto simp: in_set_conv_nth)
  from filter_key_unique [OF assms(1) k] v
  have "filter (\<lambda>row. f row = v) rows = [rows ! k]" by simp
  with k v show ?thesis by auto
qed

lemma length_filter_disj:
  assumes "\<forall>x\<in>set xs. \<not> (P x \<and> Q x)"
  shows "length (filter (\<lambda>x. P x \<or> Q x) xs) = length (filter P xs) + length (filter Q xs)"
  using assms by (induction xs) auto

lemma length_pair_line:
  assumes "distinct (map (field_value cid) centroids)"
    and "IntV i \<in> set (map (field_value cid) centroids)"
    and "IntV j \<in> set (map (field_value cid) centroids)"
  shows "length (pair_line cid centroids i j) = (if i = j then 1 else 2)"
proof -
  from unique_row_with_id [OF assms(1,2)] obtain ri where
    ri: "filter (\<lambda>row. field_value cid row = IntV i) centroids = [ri]" by blast
  from unique_row_with_id [OF assms(1,3)] obtain rj where
    rj: "filter (\<lambda>row. field_value cid row = IntV j) centroids = [rj]" by blast
  show ?thesis
  proof (cases "i = j")
    case True
    have "filter (holds (Or (Equals cid (IntV i)) (Equals cid (IntV i)))) centroids =
          filter (\<lambda>row. field_value cid row = IntV i) centroids"
      by (rule filter_cong) simp_all
    with True ri show ?thesis by (simp add: pair_line_def)
  next
    case False
    have "length (filter (\<lambda>row. field_value cid row = IntV i \<or> field_value cid row = IntV j) centroids) =
          length (filter (\<lambda>row. field_value cid row = IntV i) centroids)
          + length (filter (\<lambda>row. field_value cid row = IntV j) centroids)"
      using False by (intro length_filter_disj) auto
    moreover have "filter (holds (Or (Equals cid (IntV i)) (Equals cid (IntV j)))) centroids =
          filter (\<lambda>row. field_value cid row = IntV i \<or> field_value cid row = IntV j) centroids"
      by (rule filter_cong) simp_all
    ultimately show ?thesis using False ri rj by (simp add: pair_line_def)
  qed
qed

subsection \<open>The coordinate loop\<close>


lemma geo_coord_loop_source:
  "geo_coord_loop cid rows geo_coord k = Some p \<Longrightarrow>
     geo_coord k = Some p \<or> (\<exists>r\<in>set rows. field_value cid r = k \<and> SHAPE r = p)"
proof (induction rows arbitrary: geo_coord)
  case Nil
  then show ?case by simp
next
  case (Cons r rows)
  from Cons.IH [OF Cons.prems [simplified]] show ?case
    by (auto split: if_splits)
qed



section \<open>The run and its outputs\<close>

subsection \<open>The run in closed form\<close>

lemma initial_state_simps:
  "layer_rows (layer_centroids (initial_state centroid_of oid_name input)) =
     fc_rows (FeatureToPoint centroid_of oid_name (filter_buildings oid_name input))"
  "layer_rows (layer_polygons (initial_state centroid_of oid_name input)) =
     fc_rows (filter_buildings oid_name input)"
  "dict_out (initial_state centroid_of oid_name input) = Map.empty"
  "polylines_constructed (initial_state centroid_of oid_name input) = 0"
  "pairs_tested (initial_state centroid_of oid_name input) = []"
  by (simp_all add: initial_state_def Let_def MakeFeatureLayer_def)

lemma analysis_returns:
  assumes "analysis isect centroid_of oid_name input = Inr (cid, st)"
  shows "check_object_id (ListFields (FeatureToPoint centroid_of oid_name (filter_buildings oid_name input)))
           = Inr cid
         \<and> (\<forall>i. 1 \<le> i \<and> i \<le> GetCount (FeatureToPoint centroid_of oid_name (filter_buildings oid_name input))
               \<longrightarrow> IntV i \<in> set (map (field_value cid)
                     (fc_rows (FeatureToPoint centroid_of oid_name (filter_buildings oid_name input)))))"
proof -
  let ?cen = "FeatureToPoint centroid_of oid_name (filter_buildings oid_name input)"
  let ?n = "GetCount ?cen"
  from assms obtain bid where c: "check_object_id (ListFields ?cen) = Inr cid"
    and l: "outer_loop isect cid bid [1..?n] [1..?n] (initial_state centroid_of oid_name input) = Inr st"
    by (auto simp: analysis_def Let_def split: sum.splits)
  from outer_loop_returns [OF l]
  have v: "\<forall>i\<in>set [1..?n]. \<forall>j\<in>set [1..?n]. pair_line cid (fc_rows ?cen) i j \<noteq> []"
    by (simp only: initial_state_simps)
  have "IntV i \<in> set (map (field_value cid) (fc_rows ?cen))" if "1 \<le> i \<and> i \<le> ?n" for i
  proof -
    from that have "i \<in> set [1..?n]" by simp
    with v have "pair_line cid (fc_rows ?cen) i i \<noteq> []" by blast
    then show ?thesis by (simp only: pair_line_nonempty_iff) blast
  qed
  with c show ?thesis by blast
qed

lemma analysis_result:
  fixes input :: "'g feature_class"
  assumes "check_object_id (ListFields (FeatureToPoint centroid_of oid_name (filter_buildings oid_name input)))
           = Inr cid"
    and "\<forall>i. 1 \<le> i \<and> i \<le> GetCount (FeatureToPoint centroid_of oid_name (filter_buildings oid_name input))
               \<longrightarrow> IntV i \<in> set (map (field_value cid)
                     (fc_rows (FeatureToPoint centroid_of oid_name (filter_buildings oid_name input))))"
  shows "\<exists>st. analysis isect centroid_of oid_name input = Inr (cid, st)
     \<and> dict_out st =
         (\<lambda>k. if 1 \<le> k \<and> k \<le> GetCount (FeatureToPoint centroid_of oid_name (filter_buildings oid_name input))
              then Some (map (pair_count isect cid
                                (fc_rows (FeatureToPoint centroid_of oid_name (filter_buildings oid_name input)))
                                (fc_rows (filter_buildings oid_name input)) k)
                           [1..GetCount (FeatureToPoint centroid_of oid_name (filter_buildings oid_name input))])
              else None)
     \<and> polylines_constructed st =
         sum_list (map (\<lambda>i. sum_list (map (\<lambda>j. length (pair_line cid
               (fc_rows (FeatureToPoint centroid_of oid_name (filter_buildings oid_name input))) i j))
             [1..GetCount (FeatureToPoint centroid_of oid_name (filter_buildings oid_name input))]))
           [1..GetCount (FeatureToPoint centroid_of oid_name (filter_buildings oid_name input))])
     \<and> pairs_tested st =
         List.product [1..GetCount (FeatureToPoint centroid_of oid_name (filter_buildings oid_name input))]
           [1..GetCount (FeatureToPoint centroid_of oid_name (filter_buildings oid_name input))]"
proof -
  let ?bld = "filter_buildings oid_name input"
  let ?cen = "FeatureToPoint centroid_of oid_name ?bld"
  let ?n = "GetCount ?cen"
  let ?st = "initial_state centroid_of oid_name input"
  have b: "check_object_id (ListFields ?bld) = Inr cid"
    using assms(1) by (simp only: fields_FeatureToPoint)
  have "\<forall>i\<in>set [1..?n]. \<forall>j\<in>set [1..?n]. pair_line cid (layer_rows (layer_centroids ?st)) i j \<noteq> []"
    using assms(2) by (simp add: initial_state_simps pair_line_nonempty_iff)
  from outer_loop_Inr [OF this, of isect cid] obtain st where
    "outer_loop isect cid cid [1..?n] [1..?n] ?st = Inr st"
    and "dict_out st = (\<lambda>k. if k \<in> set [1..?n]
                 then Some (map (pair_count isect cid (layer_rows (layer_centroids ?st))
                                   (layer_rows (layer_polygons ?st)) k) [1..?n])
                 else dict_out ?st k)"
    and "polylines_constructed st = polylines_constructed ?st +
                 sum_list (map (\<lambda>i. sum_list (map (\<lambda>j. length (pair_line cid (layer_rows (layer_centroids ?st)) i j)) [1..?n])) [1..?n])"
    and "pairs_tested st = pairs_tested ?st @ List.product [1..?n] [1..?n]"
    by blast
  then show ?thesis
    unfolding initial_state_simps
    by (simp add: analysis_def Let_def assms(1) b)
qed

lemma ids_keyed:
  fixes cen :: "('c \<times> 'c) feature_class"
  assumes "\<forall>i. 1 \<le> i \<and> i \<le> GetCount cen \<longrightarrow> IntV i \<in> set (map (field_value cid) (fc_rows cen))"
  shows "distinct (map (field_value cid) (fc_rows cen))
         \<and> set (map (field_value cid) (fc_rows cen)) = IntV ` {1..GetCount cen}"
proof -
  let ?ids = "map (field_value cid) (fc_rows cen)"
  have l: "int (length ?ids) = GetCount cen" by (simp add: GetCount_def)
  have "IntV ` {1..int (length ?ids)} \<subseteq> set ?ids"
    using assms unfolding l by auto
  from covering_ids_distinct [OF this] show ?thesis unfolding l by simp
qed

lemma sum_list_row:
  assumes "distinct js" and "i \<in> set js"
  shows "sum_list (map (\<lambda>j. if i = j then 1 else 2 :: nat) js) = 2 * length js - 1"
proof -
  have "distinct js \<Longrightarrow>
        sum_list (map (\<lambda>j. if i = j then 1 else 2 :: nat) js) + (if i \<in> set js then 1 else 0) = 2 * length js"
    by (induction js) auto
  with assms show ?thesis by simp
qed

lemma polylines_total:
  fixes cen :: "('c \<times> 'c) feature_class"
  assumes "\<forall>i. 1 \<le> i \<and> i \<le> GetCount cen \<longrightarrow> IntV i \<in> set (map (field_value cid) (fc_rows cen))"
  shows "sum_list (map (\<lambda>i. sum_list (map (\<lambda>j. length (pair_line cid (fc_rows cen) i j))
             [1..GetCount cen])) [1..GetCount cen])
         = 2 * length (fc_rows cen) * length (fc_rows cen) - length (fc_rows cen)"
proof -
  let ?n = "GetCount cen" and ?m = "length (fc_rows cen)"
  from ids_keyed [OF assms] have d: "distinct (map (field_value cid) (fc_rows cen))" by simp
  have len: "length [1..?n] = ?m" by (simp add: GetCount_def)
  have row: "sum_list (map (\<lambda>j. length (pair_line cid (fc_rows cen) i j)) [1..?n]) = 2 * ?m - 1"
    if "i \<in> set [1..?n]" for i
  proof -
    have e: "map (\<lambda>j. length (pair_line cid (fc_rows cen) i j)) [1..?n] =
          map (\<lambda>j. if i = j then 1 else 2) [1..?n]"
    proof (rule map_cong [OF refl])
      fix j assume "j \<in> set [1..?n]"
      with that assms show "length (pair_line cid (fc_rows cen) i j) = (if i = j then 1 else 2)"
        by (intro length_pair_line [OF d]) auto
    qed
    have "sum_list (map (\<lambda>j. if i = j then 1 else 2 :: nat) [1..?n]) = 2 * length [1..?n] - 1"
      by (rule sum_list_row [OF _ that]) simp
    then show ?thesis unfolding e len .
  qed
  have e: "map (\<lambda>i. sum_list (map (\<lambda>j. length (pair_line cid (fc_rows cen) i j)) [1..?n])) [1..?n] =
        map (\<lambda>i. 2 * ?m - 1) [1..?n]"
    by (rule map_cong [OF refl]) (rule row)
  have "sum_list (map (\<lambda>i. 2 * ?m - 1) [1..?n]) = length [1..?n] * (2 * ?m - 1)"
    by (simp only: sum_list_triv) simp
  then have "sum_list (map (\<lambda>i. sum_list (map (\<lambda>j. length (pair_line cid (fc_rows cen) i j)) [1..?n])) [1..?n])
        = ?m * (2 * ?m - 1)"
    unfolding e len .
  also have "\<dots> = 2 * ?m * ?m - ?m"
    by (simp add: diff_mult_distrib2 mult.commute mult.left_commute)
  finally show ?thesis .
qed

lemma object_id_covers:
  fixes fc :: "'g feature_class"
  shows "\<forall>i. 1 \<le> i \<and> i \<le> GetCount (FeatureToPoint centroid_of oid_name fc)
           \<longrightarrow> IntV i \<in> set (map (field_value oid_name) (fc_rows (FeatureToPoint centroid_of oid_name fc)))"
  by (simp only: oids_FeatureToPoint) auto

subsection \<open>The outputs of main in closed form\<close>

lemma main_result:
  fixes input :: "'g feature_class"
  assumes "check_object_id (ListFields (FeatureToPoint centroid_of oid_name (filter_buildings oid_name input)))
           = Inr cid"
    and "\<forall>i. 1 \<le> i \<and> i \<le> GetCount (FeatureToPoint centroid_of oid_name (filter_buildings oid_name input))
               \<longrightarrow> IntV i \<in> set (map (field_value cid)
                     (fc_rows (FeatureToPoint centroid_of oid_name (filter_buildings oid_name input))))"
  shows "main isect centroid_of oid_name input =
     Inr (geo_coord_loop cid (fc_rows (FeatureToPoint centroid_of oid_name (filter_buildings oid_name input)))
            Map.empty,
          (\<lambda>k. if 1 \<le> k \<and> k \<le> GetCount (FeatureToPoint centroid_of oid_name (filter_buildings oid_name input))
              then Some (map (pair_count isect cid
                                (fc_rows (FeatureToPoint centroid_of oid_name (filter_buildings oid_name input)))
                                (fc_rows (filter_buildings oid_name input)) k)
                           [1..GetCount (FeatureToPoint centroid_of oid_name (filter_buildings oid_name input))])
              else None))"
  using analysis_result [OF assms, of isect]
  by (auto simp: main_def Let_def)

lemma main_returns:
  assumes "main isect centroid_of oid_name input = Inr out"
  shows "\<exists>cid. check_object_id (ListFields (FeatureToPoint centroid_of oid_name (filter_buildings oid_name input)))
           = Inr cid
         \<and> (\<forall>i. 1 \<le> i \<and> i \<le> GetCount (FeatureToPoint centroid_of oid_name (filter_buildings oid_name input))
               \<longrightarrow> IntV i \<in> set (map (field_value cid)
                     (fc_rows (FeatureToPoint centroid_of oid_name (filter_buildings oid_name input)))))"
proof -
  from assms obtain cid st where "analysis isect centroid_of oid_name input = Inr (cid, st)"
    by (auto simp: main_def Let_def split: sum.splits)
  from analysis_returns [OF this] show ?thesis by blast
qed

lemma nth_upto_from_one: "1 \<le> j \<Longrightarrow> j \<le> n \<Longrightarrow> [1..n] ! nat (j - 1) = j"
  using nth_upto [of 1 "nat (j - 1)" n] by simp

lemma matrix_row_main:
  assumes "main isect centroid_of oid_name input = Inr out"
    and "check_object_id (ListFields (FeatureToPoint centroid_of oid_name (filter_buildings oid_name input)))
           = Inr cid"
  shows "matrix_row (main isect centroid_of oid_name input) i =
           (if 1 \<le> i \<and> i \<le> GetCount (FeatureToPoint centroid_of oid_name (filter_buildings oid_name input))
            then Some (map (pair_count isect cid
                              (fc_rows (FeatureToPoint centroid_of oid_name (filter_buildings oid_name input)))
                              (fc_rows (filter_buildings oid_name input)) i)
                         [1..GetCount (FeatureToPoint centroid_of oid_name (filter_buildings oid_name input))])
            else None)"
proof -
  from main_returns [OF assms(1)] assms(2) have
    "\<forall>i. 1 \<le> i \<and> i \<le> GetCount (FeatureToPoint centroid_of oid_name (filter_buildings oid_name input))
               \<longrightarrow> IntV i \<in> set (map (field_value cid)
                     (fc_rows (FeatureToPoint centroid_of oid_name (filter_buildings oid_name input))))"
    by auto
  from main_result [OF assms(2) this, of isect] show ?thesis
    by (simp add: matrix_row_def)
qed

lemma matrix_entry_main:
  assumes "main isect centroid_of oid_name input = Inr out"
    and "check_object_id (ListFields (FeatureToPoint centroid_of oid_name (filter_buildings oid_name input)))
           = Inr cid"
    and "1 \<le> i" and "i \<le> GetCount (FeatureToPoint centroid_of oid_name (filter_buildings oid_name input))"
    and "1 \<le> j" and "j \<le> GetCount (FeatureToPoint centroid_of oid_name (filter_buildings oid_name input))"
  shows "matrix_entry (main isect centroid_of oid_name input) i j =
           Some (pair_count isect cid
                   (fc_rows (FeatureToPoint centroid_of oid_name (filter_buildings oid_name input)))
                   (fc_rows (filter_buildings oid_name input)) i j)"
proof -
  let ?n = "GetCount (FeatureToPoint centroid_of oid_name (filter_buildings oid_name input))"
  let ?count = "pair_count isect cid
                   (fc_rows (FeatureToPoint centroid_of oid_name (filter_buildings oid_name input)))
                   (fc_rows (filter_buildings oid_name input))"
  from matrix_row_main [OF assms(1,2), of i] assms(3,4)
  have r: "matrix_row (main isect centroid_of oid_name input) i = Some (map (?count i) [1..?n])"
    by simp
  have "nat (j - 1) < length [1..?n]" using assms(5,6) by simp
  then have "map (?count i) [1..?n] ! nat (j - 1) = ?count i ([1..?n] ! nat (j - 1))"
    by (rule nth_map)
  with r assms(1,5,6) show ?thesis
    by (auto simp: matrix_entry_def matrix_row_def nth_upto_from_one)
qed

subsection \<open>The loops depend on the intersection test through the polygon rows only\<close>

lemma select_location_cong:
  assumes "\<And>row. row \<in> set (layer_rows l) \<Longrightarrow> isect' line (SHAPE row) = isect line (SHAPE row)"
  shows "SelectLayerByLocation isect' l line NEW_SELECTION = SelectLayerByLocation isect l line NEW_SELECTION"
proof -
  have "filter (\<lambda>row. isect' line (SHAPE row)) (layer_rows l) =
        filter (\<lambda>row. isect line (SHAPE row)) (layer_rows l)"
    by (rule filter_cong) (simp_all add: assms)
  then show ?thesis by (simp add: SelectLayerByLocation_def select_layer_def)
qed

lemma loop_body_cong:
  assumes "\<And>line row. row \<in> set (layer_rows (layer_polygons st)) \<Longrightarrow>
             isect' line (SHAPE row) = isect line (SHAPE row)"
  shows "loop_body isect' cid bid i j st = loop_body isect cid bid i j st"
proof -
  have h: "SelectLayerByLocation isect' (layer_polygons st) line NEW_SELECTION =
        SelectLayerByLocation isect (layer_polygons st) line NEW_SELECTION" for line
    by (rule select_location_cong) (rule assms)
  show ?thesis unfolding loop_body_def h by (rule refl)
qed

lemma loop_body_rows:
  assumes "loop_body isect cid bid i j st = Inr st'"
  shows "layer_rows (layer_polygons st') = layer_rows (layer_polygons st)
         \<and> layer_rows (layer_centroids st') = layer_rows (layer_centroids st)"
proof -
  from loop_body_returns [OF assms] obtain row where
    "pair_line cid (layer_rows (layer_centroids st)) i j \<noteq> []" and "dict_out st i = Some row"
    by blast
  from loop_body_Inr [OF this, of isect bid] assms show ?thesis by auto
qed

lemma inner_loop_rows:
  assumes "inner_loop isect cid bid i js st = Inr st'"
  shows "layer_rows (layer_polygons st') = layer_rows (layer_polygons st)
         \<and> layer_rows (layer_centroids st') = layer_rows (layer_centroids st)"
  using assms
proof (induction js arbitrary: st)
  case Nil
  then show ?case by simp
next
  case (Cons j js)
  from Cons.prems obtain st1 where s1: "loop_body isect cid bid i j st = Inr st1"
    and s2: "inner_loop isect cid bid i js st1 = Inr st'"
    by (auto split: sum.splits)
  from Cons.IH [OF s2] loop_body_rows [OF s1] show ?case by simp
qed

lemma inner_loop_cong:
  assumes "\<And>line row. row \<in> set (layer_rows (layer_polygons st)) \<Longrightarrow>
             isect' line (SHAPE row) = isect line (SHAPE row)"
  shows "inner_loop isect' cid bid i js st = inner_loop isect cid bid i js st"
  using assms
proof (induction js arbitrary: st)
  case Nil
  then show ?case by simp
next
  case (Cons j js)
  have b: "loop_body isect' cid bid i j st = loop_body isect cid bid i j st"
    by (rule loop_body_cong) (rule Cons.prems)
  show ?case
  proof (cases "loop_body isect cid bid i j st")
    case (Inl e)
    with b show ?thesis by simp
  next
    case (Inr st1)
    from loop_body_rows [OF Inr]
    have "layer_rows (layer_polygons st1) = layer_rows (layer_polygons st)" by simp
    then have "inner_loop isect' cid bid i js st1 = inner_loop isect cid bid i js st1"
      using Cons.prems by (intro Cons.IH) simp
    with b Inr show ?thesis by simp
  qed
qed

lemma outer_loop_cong:
  assumes "\<And>line row. row \<in> set (layer_rows (layer_polygons st)) \<Longrightarrow>
             isect' line (SHAPE row) = isect line (SHAPE row)"
  shows "outer_loop isect' cid bid js is st = outer_loop isect cid bid js is st"
  using assms
proof (induction "is" arbitrary: st)
  case Nil
  then show ?case by simp
next
  case (Cons i "is")
  let ?st0 = "st\<lparr>dict_out := (dict_out st)(i \<mapsto> [])\<rparr>"
  have b: "inner_loop isect' cid bid i js ?st0 = inner_loop isect cid bid i js ?st0"
    using Cons.prems by (intro inner_loop_cong) simp
  show ?case
  proof (cases "inner_loop isect cid bid i js ?st0")
    case (Inl e)
    with b show ?thesis by simp
  next
    case (Inr st1)
    from inner_loop_rows [OF Inr]
    have "layer_rows (layer_polygons st1) = layer_rows (layer_polygons st)" by simp
    then have "outer_loop isect' cid bid js is st1 = outer_loop isect cid bid js is st1"
      using Cons.prems by (intro Cons.IH) simp
    with b Inr show ?thesis by simp
  qed
qed

lemma main_cong:
  assumes fb: "filter_buildings oid_name input' = filter_buildings oid_name input"
    and ce: "FeatureToPoint centroid_of' oid_name (filter_buildings oid_name input) =
             FeatureToPoint centroid_of oid_name (filter_buildings oid_name input)"
    and ie: "\<And>line row. row \<in> set (fc_rows (filter_buildings oid_name input)) \<Longrightarrow>
               isect' line (SHAPE row) = isect line (SHAPE row)"
  shows "main isect' centroid_of' oid_name input' = main isect centroid_of oid_name input"
proof -
  have st: "initial_state centroid_of' oid_name input' = initial_state centroid_of oid_name input"
    by (simp add: initial_state_def fb ce)
  have h: "outer_loop isect' cid bid js is (initial_state centroid_of oid_name input) =
        outer_loop isect cid bid js is (initial_state centroid_of oid_name input)" for cid bid js "is"
    by (rule outer_loop_cong) (simp add: initial_state_simps ie)
  have a: "analysis isect' centroid_of' oid_name input' = analysis isect centroid_of oid_name input"
    unfolding analysis_def Let_def fb ce st h by (rule refl)
  show ?thesis unfolding main_def Let_def fb ce a by (rule refl)
qed

subsection \<open>Where the loaded buildings and the centroids come from\<close>

lemma set_map_filter: "set (List.map_filter f xs) = {y. \<exists>x\<in>set xs. f x = Some y}"
  by (induction xs) (auto split: option.splits)


lemma filter_buildings_source:
  assumes "row \<in> set (fc_rows (filter_buildings oid_name input))"
  shows "\<exists>r\<in>set (fc_rows input). is_building r \<and> SHAPE row = SHAPE r"
proof -
  have "SHAPE row \<in> set (map SHAPE (fc_rows (filter_buildings oid_name input)))" using assms by simp
  then have "SHAPE row \<in> set (map SHAPE (filter is_building (fc_rows input)))"
    by (simp only: shapes_filter_buildings)
  then show ?thesis by auto
qed


lemma centroid_source:
  assumes "c \<in> set (fc_rows (FeatureToPoint centroid_of oid_name (filter_buildings oid_name input)))"
  shows "\<exists>r\<in>set (fc_rows input). is_building r \<and> centroid_of (SHAPE r) = Some (SHAPE c)"
proof -
  have "SHAPE c \<in> set (map SHAPE (fc_rows (FeatureToPoint centroid_of oid_name (filter_buildings oid_name input))))"
    using assms by simp
  then have "SHAPE c \<in> set (List.map_filter centroid_of (map SHAPE (filter is_building (fc_rows input))))"
    by (simp only: shapes_FeatureToPoint shapes_filter_buildings)
  then show ?thesis by (auto simp: set_map_filter)
qed



lemma main_coordinates:
  assumes "main isect centroid_of oid_name input = Inr out"
  shows "\<exists>cid. check_object_id (ListFields (FeatureToPoint centroid_of oid_name (filter_buildings oid_name input)))
                 = Inr cid
         \<and> fst out = geo_coord_loop cid
             (fc_rows (FeatureToPoint centroid_of oid_name (filter_buildings oid_name input))) Map.empty"
proof -
  from assms obtain cid st where a: "analysis isect centroid_of oid_name input = Inr (cid, st)"
    by (auto simp: main_def Let_def split: sum.splits)
  from analysis_returns [OF a] a assms show ?thesis
    by (auto simp: main_def Let_def)
qed

lemma coordinate_entry_source:
  assumes "coordinate_entry (main isect centroid_of oid_name input) k = Some p"
  shows "\<exists>r\<in>set (fc_rows input). is_building r \<and> centroid_of (SHAPE r) = Some p"
proof -
  from assms obtain out where m: "main isect centroid_of oid_name input = Inr out"
    and o: "fst out k = Some p"
    by (auto simp: coordinate_entry_def split: sum.splits)
  from main_coordinates [OF m] obtain cid where
    "fst out = geo_coord_loop cid
             (fc_rows (FeatureToPoint centroid_of oid_name (filter_buildings oid_name input))) Map.empty"
    by blast
  with o geo_coord_loop_source [of cid _ Map.empty k p] obtain c where
    "c \<in> set (fc_rows (FeatureToPoint centroid_of oid_name (filter_buildings oid_name input)))"
    and "SHAPE c = p"
    by auto
  with centroid_source [of c centroid_of oid_name input] show ?thesis by auto
qed

section \<open>Auxiliary facts\<close>

lemma main_object_id_returns:
  assumes "check_object_id (ListFields (FeatureToPoint centroid_of oid_name (filter_buildings oid_name input)))
           = Inr oid_name"
  shows "\<exists>out. main isect centroid_of oid_name input = Inr out"
  using main_result [OF assms object_id_covers, of isect] by blast

lemma analysis_object_id_returns:
  assumes "check_object_id (ListFields (FeatureToPoint centroid_of oid_name (filter_buildings oid_name input)))
           = Inr oid_name"
  shows "\<exists>st. analysis isect centroid_of oid_name input = Inr (oid_name, st)"
  using analysis_result [OF assms object_id_covers, of isect] by blast

lemma map_filter_cong:
  "(\<And>x. x \<in> set xs \<Longrightarrow> f x = g x) \<Longrightarrow> List.map_filter f xs = List.map_filter g xs"
  by (induction xs) (auto split: option.splits)

lemma FeatureToPoint_cong:
  assumes "\<And>row. row \<in> set (fc_rows fc) \<Longrightarrow> centroid_of' (SHAPE row) = centroid_of (SHAPE row)"
  shows "FeatureToPoint centroid_of' oid_name fc = FeatureToPoint centroid_of oid_name fc"
proof -
  have "List.map_filter
          (\<lambda>row. map_option (\<lambda>p. \<lparr>attributes = attributes row, SHAPE = p\<rparr>) (centroid_of' (SHAPE row)))
          (fc_rows fc) =
        List.map_filter
          (\<lambda>row. map_option (\<lambda>p. \<lparr>attributes = attributes row, SHAPE = p\<rparr>) (centroid_of (SHAPE row)))
          (fc_rows fc)"
    by (rule map_filter_cong) (simp add: assms)
  then show ?thesis by (simp only: FeatureToPoint_def)
qed


lemma gdb_three: "check_object_id (ListFields (FeatureToPoint centroid ''OBJECTID''
    (filter_buildings ''OBJECTID'' three_in_a_row))) = Inr ''OBJECTID''"
  by code_simp




lemma check_object_id_names:
  "check_object_id fs =
     (if ''OID'' \<in> set (field_names fs) then Inr ''OID''
      else if ''OBJECTID'' \<in> set (field_names fs) then Inr ''OBJECTID''
      else if ''ObjectID'' \<in> set (field_names fs) then Inr ''ObjectID''
      else Inl UnboundLocalError)"
  by (simp add: check_object_id_def Let_def)

lemma field_names_subset: "set (field_names fs) \<subseteq> field_name ` set fs"
  by (auto simp: field_names_def)

section \<open>The claims\<close>

text \<open>
  C9. \<open>check_object_id\<close> returns a name only when the layer has a field of that name,
  and the name is the first of OID, OBJECTID, ObjectID found among the non-geometry
  fields; on a layer with no field of any of the three names it raises the
  unbound-variable error instead of returning.
\<close>

theorem check_object_id_needs_id_field:
  "(check_object_id fs = Inr v \<longrightarrow>
      v \<in> field_name ` set fs
      \<and> (v = ''OID'' \<and> ''OID'' \<in> set (field_names fs)
         \<or> v = ''OBJECTID'' \<and> ''OBJECTID'' \<in> set (field_names fs) \<and> ''OID'' \<notin> set (field_names fs)
         \<or> v = ''ObjectID'' \<and> ''ObjectID'' \<in> set (field_names fs)
             \<and> ''OID'' \<notin> set (field_names fs) \<and> ''OBJECTID'' \<notin> set (field_names fs)))
   \<and> (''OID'' \<in> set (field_names fs) \<longrightarrow> check_object_id fs = Inr ''OID'')
   \<and> ((\<forall>f\<in>set fs. field_name f \<noteq> ''OID'' \<and> field_name f \<noteq> ''OBJECTID'' \<and> field_name f \<noteq> ''ObjectID'')
        \<longrightarrow> check_object_id fs = Inl UnboundLocalError)"
proof (intro conjI impI)
  assume r: "check_object_id fs = Inr v"
  then have "v \<in> set (field_names fs)"
    by (auto simp: check_object_id_names split: if_splits)
  then show "v \<in> field_name ` set fs"
    using field_names_subset by blast
  show "v = ''OID'' \<and> ''OID'' \<in> set (field_names fs)
         \<or> v = ''OBJECTID'' \<and> ''OBJECTID'' \<in> set (field_names fs) \<and> ''OID'' \<notin> set (field_names fs)
         \<or> v = ''ObjectID'' \<and> ''ObjectID'' \<in> set (field_names fs)
             \<and> ''OID'' \<notin> set (field_names fs) \<and> ''OBJECTID'' \<notin> set (field_names fs)"
    using r by (auto simp: check_object_id_names split: if_splits)
next
  assume "''OID'' \<in> set (field_names fs)"
  then show "check_object_id fs = Inr ''OID''"
    by (simp add: check_object_id_names)
next
  assume none: "\<forall>f\<in>set fs. field_name f \<noteq> ''OID'' \<and> field_name f \<noteq> ''OBJECTID'' \<and> field_name f \<noteq> ''ObjectID''"
  have "''OID'' \<notin> set (field_names fs)" "''OBJECTID'' \<notin> set (field_names fs)"
    "''ObjectID'' \<notin> set (field_names fs)"
    using none by (auto simp: field_names_def)
  then show "check_object_id fs = Inl UnboundLocalError"
    by (simp add: check_object_id_names)
qed

text \<open>
  The theorem for C9 on the fields of a geodatabase feature class, where the function
  returns, and on those of a shapefile, where it raises.
\<close>

theorem check_object_id_needs_id_field_witness:
  "check_object_id gdb_fields = Inr ''OBJECTID''
   \<and> ''OBJECTID'' \<in> field_name ` set gdb_fields
   \<and> ''OID'' \<notin> set (field_names gdb_fields)
   \<and> list_all (\<lambda>f. field_name f \<noteq> ''OID'' \<and> field_name f \<noteq> ''OBJECTID'' \<and> field_name f \<noteq> ''ObjectID'')
        shapefile_fields
   \<and> check_object_id shapefile_fields = Inl UnboundLocalError"
proof -
  have g: "check_object_id gdb_fields = Inr ''OBJECTID''" by code_simp
  have s: "list_all (\<lambda>f. field_name f \<noteq> ''OID'' \<and> field_name f \<noteq> ''OBJECTID'' \<and> field_name f \<noteq> ''ObjectID'')
        shapefile_fields" by code_simp
  from check_object_id_needs_id_field [of gdb_fields "''OBJECTID''"] g
  have "''OBJECTID'' \<in> field_name ` set gdb_fields \<and> ''OID'' \<notin> set (field_names gdb_fields)"
    by auto
  moreover from check_object_id_needs_id_field [of shapefile_fields] s
  have "check_object_id shapefile_fields = Inl UnboundLocalError"
    by (simp add: list_all_iff)
  ultimately show ?thesis using g s by simp
qed

text \<open>
  C3. For every building set and all distinct ids \<open>i\<close>, \<open>j\<close> in \<open>1..n\<close>, the crossing
  matrix a run produces is symmetric: the entries \<open>(i, j)\<close> and \<open>(j, i)\<close> both exist and
  are equal. The clause \<open>id = i Or id = j\<close> selects the same rows in the same table order
  for both, hence the same line.
\<close>

theorem crossing_matrix_symmetric:
  assumes "main isect centroid_of oid_name input = Inr out"
    and "1 \<le> i" and "i \<le> GetCount (FeatureToPoint centroid_of oid_name (filter_buildings oid_name input))"
    and "1 \<le> j" and "j \<le> GetCount (FeatureToPoint centroid_of oid_name (filter_buildings oid_name input))"
    and "i \<noteq> j"
  shows "\<exists>c. matrix_entry (main isect centroid_of oid_name input) i j = Some c
           \<and> matrix_entry (main isect centroid_of oid_name input) j i = Some c"
proof -
  from main_returns [OF assms(1)] obtain cid where
    c: "check_object_id (ListFields (FeatureToPoint centroid_of oid_name (filter_buildings oid_name input)))
           = Inr cid"
    by blast
  from matrix_entry_main [OF assms(1) c assms(2,3,4,5)] matrix_entry_main [OF assms(1) c assms(4,5,2,3)]
  show ?thesis
    by (simp add: pair_count_commute [of _ _ _ _ i j])
qed

text \<open>
  The hypotheses of the theorem for C3 hold in the scenario with three buildings, for
  the pair \<open>(1, 3)\<close>.
\<close>

theorem crossing_matrix_symmetric_witness:
  "(\<exists>out. main segmentIntersectsPolygon centroid ''OBJECTID'' three_in_a_row = Inr out)
   \<and> (1::int) \<le> 1
   \<and> 1 \<le> GetCount (FeatureToPoint centroid ''OBJECTID'' (filter_buildings ''OBJECTID'' three_in_a_row))
   \<and> (1::int) \<le> 3
   \<and> 3 \<le> GetCount (FeatureToPoint centroid ''OBJECTID'' (filter_buildings ''OBJECTID'' three_in_a_row))
   \<and> (1::int) \<noteq> 3
   \<and> matrix_entry (main segmentIntersectsPolygon centroid ''OBJECTID'' three_in_a_row) 1 3 = Some 3
   \<and> matrix_entry (main segmentIntersectsPolygon centroid ''OBJECTID'' three_in_a_row) 3 1 = Some 3"
proof -
  have n: "GetCount (FeatureToPoint centroid ''OBJECTID'' (filter_buildings ''OBJECTID'' three_in_a_row)) = 3"
    by code_simp
  have e: "matrix_entry (main segmentIntersectsPolygon centroid ''OBJECTID'' three_in_a_row) 1 3 = Some 3"
    by code_simp
  from main_object_id_returns [OF gdb_three, of segmentIntersectsPolygon]
  obtain out where m: "main segmentIntersectsPolygon centroid ''OBJECTID'' three_in_a_row = Inr out"
    by blast
  have "\<exists>c. matrix_entry (main segmentIntersectsPolygon centroid ''OBJECTID'' three_in_a_row) 1 3 = Some c
           \<and> matrix_entry (main segmentIntersectsPolygon centroid ''OBJECTID'' three_in_a_row) 3 1 = Some c"
    by (rule crossing_matrix_symmetric [OF m]) (simp_all add: n)
  with e n m show ?thesis by auto
qed



text \<open>
  C10. Only input polygons whose \<open>building\<close> attribute equals \<open>'yes'\<close> contribute. The
  outputs are those of the run on the input with every other polygon removed; they do
  not change when the centroid function and the intersection test are changed on the
  shapes of the other polygons, so these are dropped before any centroid is computed;
  and every coordinate-table entry is the centroid of an input polygon tagged
  \<open>'yes'\<close>.
\<close>

theorem only_buildings_contribute:
  assumes "\<And>row. row \<in> set (fc_rows input) \<Longrightarrow> field_value ''building'' row = StrV ''yes'' \<Longrightarrow>
             centroid_of' (SHAPE row) = centroid_of (SHAPE row)"
    and "\<And>line row. row \<in> set (fc_rows input) \<Longrightarrow> field_value ''building'' row = StrV ''yes'' \<Longrightarrow>
             isect' line (SHAPE row) = isect line (SHAPE row)"
  shows "main isect' centroid_of' oid_name input =
           main isect centroid_of oid_name
             (input\<lparr>fc_rows := filter (\<lambda>row. field_value ''building'' row = StrV ''yes'') (fc_rows input)\<rparr>)
         \<and> (\<forall>k p. coordinate_entry (main isect' centroid_of' oid_name input) k = Some p
               \<longrightarrow> (\<exists>row\<in>set (fc_rows input).
                      field_value ''building'' row = StrV ''yes'' \<and> centroid_of (SHAPE row) = Some p))"
proof
  let ?yes = "input\<lparr>fc_rows := filter (\<lambda>row. field_value ''building'' row = StrV ''yes'') (fc_rows input)\<rparr>"
  have y: "?yes = input\<lparr>fc_rows := filter is_building (fc_rows input)\<rparr>"
    by (simp add: is_building_def [abs_def])
  have fb: "filter_buildings oid_name input = filter_buildings oid_name ?yes"
    unfolding y by (simp add: filter_buildings_idem)
  have src: "\<exists>r\<in>set (fc_rows input). field_value ''building'' r = StrV ''yes'' \<and> SHAPE row = SHAPE r"
    if "row \<in> set (fc_rows (filter_buildings oid_name ?yes))" for row
    using that filter_buildings_source [of row oid_name input] by (simp add: fb is_building_def)
  have ce: "FeatureToPoint centroid_of' oid_name (filter_buildings oid_name ?yes) =
            FeatureToPoint centroid_of oid_name (filter_buildings oid_name ?yes)"
  proof (rule FeatureToPoint_cong)
    fix row assume "row \<in> set (fc_rows (filter_buildings oid_name ?yes))"
    from src [OF this] obtain r where "r \<in> set (fc_rows input)"
      "field_value ''building'' r = StrV ''yes''" "SHAPE row = SHAPE r"
      by blast
    then show "centroid_of' (SHAPE row) = centroid_of (SHAPE row)"
      using assms(1) [of r] by simp
  qed
  have ie: "isect' line (SHAPE row) = isect line (SHAPE row)"
    if "row \<in> set (fc_rows (filter_buildings oid_name ?yes))" for line row
  proof -
    from src [OF that] obtain r where "r \<in> set (fc_rows input)"
      "field_value ''building'' r = StrV ''yes''" "SHAPE row = SHAPE r"
      by blast
    then show ?thesis using assms(2) [of r line] by simp
  qed
  show eq: "main isect' centroid_of' oid_name input = main isect centroid_of oid_name ?yes"
    by (rule main_cong [where isect' = isect' and isect = isect, OF fb ce]) (rule ie)
  show "\<forall>k p. coordinate_entry (main isect' centroid_of' oid_name input) k = Some p
               \<longrightarrow> (\<exists>row\<in>set (fc_rows input).
                      field_value ''building'' row = StrV ''yes'' \<and> centroid_of (SHAPE row) = Some p)"
  proof (intro allI impI)
    fix k p
    assume "coordinate_entry (main isect' centroid_of' oid_name input) k = Some p"
    then have "coordinate_entry (main isect centroid_of oid_name ?yes) k = Some p"
      by (simp only: eq)
    from coordinate_entry_source [OF this] obtain r where
      "r \<in> set (fc_rows ?yes)" and r: "is_building r" "centroid_of (SHAPE r) = Some p"
      by blast
    then have "r \<in> set (fc_rows input)" by simp
    with r show
      "\<exists>row\<in>set (fc_rows input). field_value ''building'' row = StrV ''yes'' \<and> centroid_of (SHAPE row) = Some p"
      by (auto simp: is_building_def)
  qed
qed

text \<open>
  The theorem for C10 on the scenario with a park: a centroid function and an
  intersection test that differ on the park leave the outputs unchanged.
\<close>

theorem only_buildings_contribute_witness:
  "list_all (\<lambda>row. field_value ''building'' row \<noteq> StrV ''yes'' \<or>
        shifted_centroid (SHAPE row) = centroid (SHAPE row)) (fc_rows three_in_a_row)
   \<and> shifted_centroid (square 0 10) \<noteq> centroid (square 0 10)
   \<and> main eager_intersects shifted_centroid ''OBJECTID'' three_in_a_row =
       main segmentIntersectsPolygon centroid ''OBJECTID''
         (three_in_a_row\<lparr>fc_rows :=
            filter (\<lambda>row. field_value ''building'' row = StrV ''yes'') (fc_rows three_in_a_row)\<rparr>)
   \<and> coordinate_entry (main eager_intersects shifted_centroid ''OBJECTID'' three_in_a_row) (IntV 2)
       = centroid (square 10 0)"
proof -
  have rows: "fc_rows three_in_a_row =
      [polygon_row 1 ''yes'' (square 0 0), polygon_row 2 ''park'' (square 0 10),
       polygon_row 3 ''yes'' (square 10 0), polygon_row 4 ''yes'' (square 20 0)]"
    by (simp add: three_in_a_row_def)
  have h1: "shifted_centroid (SHAPE row) = centroid (SHAPE row)"
    if "row \<in> set (fc_rows three_in_a_row)" "field_value ''building'' row = StrV ''yes''" for row
    using that by (auto simp: rows polygon_row_def field_value_def shifted_centroid_def square_def)
  have h2: "eager_intersects line (SHAPE row) = segmentIntersectsPolygon line (SHAPE row)"
    if "row \<in> set (fc_rows three_in_a_row)" "field_value ''building'' row = StrV ''yes''" for line row
    using that by (auto simp: rows polygon_row_def field_value_def eager_intersects_def square_def)
  have a: "list_all (\<lambda>row. field_value ''building'' row \<noteq> StrV ''yes'' \<or>
        shifted_centroid (SHAPE row) = centroid (SHAPE row)) (fc_rows three_in_a_row)"
    using h1 by (auto simp: list_all_iff)
  have b: "shifted_centroid (square 0 10) \<noteq> centroid (square 0 10)" by code_simp
  have c: "coordinate_entry (main segmentIntersectsPolygon centroid ''OBJECTID''
         (three_in_a_row\<lparr>fc_rows :=
            filter (\<lambda>row. field_value ''building'' row = StrV ''yes'') (fc_rows three_in_a_row)\<rparr>)) (IntV 2)
         = centroid (square 10 0)"
    by code_simp
  from only_buildings_contribute [of three_in_a_row shifted_centroid centroid eager_intersects
      segmentIntersectsPolygon "''OBJECTID''", OF h1 h2]
  have "main eager_intersects shifted_centroid ''OBJECTID'' three_in_a_row =
       main segmentIntersectsPolygon centroid ''OBJECTID''
         (three_in_a_row\<lparr>fc_rows :=
            filter (\<lambda>row. field_value ''building'' row = StrV ''yes'') (fc_rows three_in_a_row)\<rparr>)"
    by blast
  with a b c show ?thesis by simp
qed

text \<open>
  C1. The claim: the count recorded for a pair is the number of other buildings crossed,
  the pair's own two polygons never being included. The comment above the spatial
  selection says the same (the number of intersecting polygons minus 2, the initial
  points), but the loop stores the number of selected polygons as it is. On two
  separate squares the script records 2 for the pair \<open>(1, 2)\<close>, where no other building
  exists and the obstruction count is 0.
\<close>

theorem endpoints_are_counted:
  "matrix_entry (main segmentIntersectsPolygon centroid ''OBJECTID'' two_buildings) 1 2 = Some 2
   \<and> obstruction_count segmentIntersectsPolygon ''OBJECTID''
       (fc_rows (FeatureToPoint centroid ''OBJECTID'' (filter_buildings ''OBJECTID'' two_buildings)))
       (fc_rows (filter_buildings ''OBJECTID'' two_buildings)) 1 2 = Some 0"
proof -
  have "matrix_entry (main segmentIntersectsPolygon centroid ''OBJECTID'' two_buildings) 1 2 = Some 2"
    by code_simp
  moreover have "obstruction_count segmentIntersectsPolygon ''OBJECTID''
       (fc_rows (FeatureToPoint centroid ''OBJECTID'' (filter_buildings ''OBJECTID'' two_buildings)))
       (fc_rows (filter_buildings ''OBJECTID'' two_buildings)) 1 2 = Some 0"
    by code_simp
  ultimately show ?thesis by simp
qed

text \<open>
  C4. The claim: every entry is at most \<open>n - 2\<close>, since the two endpoint buildings are
  never counted. The script counts them (see C1): with three buildings in a row the entry
  \<open>(1, 3)\<close> is 3, which exceeds \<open>n - 2 = 1\<close>.
\<close>

theorem entry_exceeds_n_minus_two:
  "GetCount (filter_buildings ''OBJECTID'' three_in_a_row) = 3
   \<and> matrix_entry (main segmentIntersectsPolygon centroid ''OBJECTID'' three_in_a_row) 1 3 = Some 3
   \<and> \<not> (3 \<le> GetCount (filter_buildings ''OBJECTID'' three_in_a_row) - 2)"
proof -
  have n: "GetCount (filter_buildings ''OBJECTID'' three_in_a_row) = 3" by code_simp
  moreover have "matrix_entry (main segmentIntersectsPolygon centroid ''OBJECTID'' three_in_a_row) 1 3 = Some 3"
    by code_simp
  ultimately show ?thesis by simp
qed

text \<open>
  C5, as amended. In a run that completes, the loops visit every ordered pair \<open>(i, j)\<close>
  with \<open>i\<close> and \<open>j\<close> in \<open>1..n\<close>, row by row, the pairs \<open>(i, i)\<close> and both \<open>(i, j)\<close> and
  \<open>(j, i)\<close> included, and run one spatial selection for each, \<open>n * n\<close> in all.
  \<open>create_line\<close> constructs a polyline after every selected centroid, \<open>2 * n * n - n\<close>
  in all. Each pass of the loop body appends its one count to row \<open>i\<close> and changes no
  other row; after the run, row \<open>i\<close> holds the counts of \<open>(i, 1)\<close>, ..., \<open>(i, n)\<close>.
\<close>

theorem every_ordered_pair_is_processed:
  assumes "analysis isect centroid_of oid_name input = Inr (cid, st)"
    and "n = GetCount (FeatureToPoint centroid_of oid_name (filter_buildings oid_name input))"
  shows "pairs_tested st = List.product [1..n] [1..n]
     \<and> polylines_constructed st = 2 * nat n * nat n - nat n
     \<and> (\<forall>i\<in>{1..n}. dict_out st i =
           Some (map (pair_count isect cid
                        (fc_rows (FeatureToPoint centroid_of oid_name (filter_buildings oid_name input)))
                        (fc_rows (filter_buildings oid_name input)) i) [1..n]))
     \<and> (\<forall>st0 st1 bid i j. loop_body isect cid bid i j st0 = Inr st1 \<longrightarrow>
           (\<exists>row. dict_out st0 i = Some row
              \<and> dict_out st1 = (dict_out st0)(i \<mapsto> row @
                  [pair_count isect cid (layer_rows (layer_centroids st0))
                     (layer_rows (layer_polygons st0)) i j])))"
proof -
  let ?cen = "FeatureToPoint centroid_of oid_name (filter_buildings oid_name input)"
  from analysis_returns [OF assms(1)] have c: "check_object_id (ListFields ?cen) = Inr cid"
    and cover: "\<forall>i. 1 \<le> i \<and> i \<le> GetCount ?cen \<longrightarrow> IntV i \<in> set (map (field_value cid) (fc_rows ?cen))"
    by blast+
  from analysis_result [OF c cover, of isect] obtain st' where
    a: "analysis isect centroid_of oid_name input = Inr (cid, st')"
    and d': "dict_out st' = (\<lambda>k. if 1 \<le> k \<and> k \<le> GetCount ?cen
              then Some (map (pair_count isect cid (fc_rows ?cen) (fc_rows (filter_buildings oid_name input)) k)
                           [1..GetCount ?cen])
              else None)"
    and p': "polylines_constructed st' =
         sum_list (map (\<lambda>i. sum_list (map (\<lambda>j. length (pair_line cid (fc_rows ?cen) i j)) [1..GetCount ?cen]))
           [1..GetCount ?cen])"
    and t': "pairs_tested st' = List.product [1..GetCount ?cen] [1..GetCount ?cen]"
    by blast
  from a assms(1) have e: "st' = st" by simp
  note d = d' [unfolded e assms(2) [symmetric]]
    and p = p' [unfolded e assms(2) [symmetric]]
    and t = t' [unfolded e assms(2) [symmetric]]
  have m: "length (fc_rows ?cen) = nat n" by (simp add: assms(2) GetCount_def)
  have "polylines_constructed st = 2 * nat n * nat n - nat n"
    using polylines_total [OF cover, unfolded assms(2) [symmetric] m] p by simp
  moreover have "\<exists>row. dict_out st0 i = Some row
              \<and> dict_out st1 = (dict_out st0)(i \<mapsto> row @
                  [pair_count isect cid (layer_rows (layer_centroids st0))
                     (layer_rows (layer_polygons st0)) i j])"
    if "loop_body isect cid bid i j st0 = Inr st1" for st0 st1 bid i j
  proof -
    from loop_body_returns [OF that] obtain row where
      v: "pair_line cid (layer_rows (layer_centroids st0)) i j \<noteq> []" and r: "dict_out st0 i = Some row"
      by blast
    from loop_body_Inr [OF v r, of isect bid] that r show ?thesis by auto
  qed
  moreover have "\<forall>i\<in>{1..n}. dict_out st i =
           Some (map (pair_count isect cid (fc_rows ?cen) (fc_rows (filter_buildings oid_name input)) i) [1..n])"
    unfolding d by simp
  ultimately show ?thesis using t by blast
qed

text \<open>
  The theorem for C5 in the scenario with three buildings: nine pairs, fifteen
  polylines.
\<close>

theorem every_ordered_pair_is_processed_witness:
  "pairs_processed (analysis segmentIntersectsPolygon centroid ''OBJECTID'' three_in_a_row) =
     Some (List.product [1, 2, 3] [1, 2, 3])
   \<and> polylines_built (analysis segmentIntersectsPolygon centroid ''OBJECTID'' three_in_a_row) = Some 15
   \<and> (3::int) = GetCount (FeatureToPoint centroid ''OBJECTID'' (filter_buildings ''OBJECTID'' three_in_a_row))"
proof -
  have n: "(3::int) = GetCount (FeatureToPoint centroid ''OBJECTID'' (filter_buildings ''OBJECTID'' three_in_a_row))"
    by code_simp
  from analysis_object_id_returns [OF gdb_three, of segmentIntersectsPolygon]
  obtain st where a: "analysis segmentIntersectsPolygon centroid ''OBJECTID'' three_in_a_row = Inr (''OBJECTID'', st)"
    by blast
  from every_ordered_pair_is_processed [OF a n]
  have "pairs_tested st = List.product [1..3] [1..3]" and "polylines_constructed st = 2 * nat 3 * nat 3 - nat 3"
    by blast+
  then have "pairs_tested st = List.product [1, 2, 3] [1, 2, 3]" and "polylines_constructed st = 15"
    by (simp_all add: upto_rec1)
  with a n show ?thesis by (simp add: pairs_processed_def polylines_built_def)
qed

text \<open>
  C5 as stated fails for two buildings: the pairs processed are \<open>(1, 1)\<close>, \<open>(1, 2)\<close>,
  \<open>(2, 1)\<close>, \<open>(2, 2)\<close>, not only those with \<open>i < j\<close>, and six polylines are constructed,
  not \<open>n (n - 1) / 2 = 1\<close>.
\<close>

theorem half_the_pairs_counterexample:
  "pairs_processed (analysis segmentIntersectsPolygon centroid ''OBJECTID'' two_buildings) =
     Some [(1, 1), (1, 2), (2, 1), (2, 2)]
   \<and> polylines_built (analysis segmentIntersectsPolygon centroid ''OBJECTID'' two_buildings) = Some 6
   \<and> (6::nat) \<noteq> 2 * (2 - 1) div 2"
proof -
  have "pairs_processed (analysis segmentIntersectsPolygon centroid ''OBJECTID'' two_buildings) =
     Some [(1, 1), (1, 2), (2, 1), (2, 2)]"
    by code_simp
  moreover have "polylines_built (analysis segmentIntersectsPolygon centroid ''OBJECTID'' two_buildings) = Some 6"
    by code_simp
  ultimately show ?thesis by simp
qed







end
